theory Spec2Isabelle
  imports Main "HOL-Library.Char_ord" "HOL-Library.List_Lexorder"
begin

section \<open>Strings\<close>

text \<open>
  Go strings are byte sequences; \<open>string\<close> is a list of 8-bit characters. With
  \<open>Char_ord\<close> and \<open>List_Lexorder\<close> the order \<open><\<close> on \<open>string\<close> is the bytewise
  lexicographic order, which is Go's \<open><\<close> on strings.
\<close>

definition newline :: string where
  "newline = [CHR 0x0A]"

text \<open>\<open>strings.HasSuffix\<close> and \<open>strings.HasPrefix\<close>.\<close>

definition HasSuffix :: "string \<Rightarrow> string \<Rightarrow> bool" where
  "HasSuffix s suffix =
     (length suffix \<le> length s \<and> drop (length s - length suffix) s = suffix)"

definition HasPrefix :: "string \<Rightarrow> string \<Rightarrow> bool" where
  "HasPrefix s pre = (length pre \<le> length s \<and> take (length pre) s = pre)"

text \<open>\<open>strings.TrimSuffix\<close>: the string without the suffix when it ends in it.\<close>

definition TrimSuffix :: "string \<Rightarrow> string \<Rightarrow> string" where
  "TrimSuffix s suffix =
     (if HasSuffix s suffix then take (length s - length suffix) s else s)"

text \<open>
  \<open>strings.ToLower\<close>: a string of ASCII bytes only has its letters \<open>A\<close> to \<open>Z\<close> mapped to
  \<open>a\<close> to \<open>z\<close>; any other string is mapped rune by rune through \<open>unicode.ToLower\<close>, which
  is a parameter here (\<open>ul\<close>).
\<close>

definition lower_byte :: "char \<Rightarrow> char" where
  "lower_byte c =
     (if CHR ''A'' \<le> c \<and> c \<le> CHR ''Z'' then char_of (of_char c + (32::nat)) else c)"

definition ToLower :: "(string \<Rightarrow> string) \<Rightarrow> string \<Rightarrow> string" where
  "ToLower ul s =
     (if list_all (\<lambda>c. of_char c < (128::nat)) s then map lower_byte s else ul s)"

section \<open>The dependency importer (language/go/dep.go)\<close>

subsection \<open>Data\<close>

record depProject =
  Name :: string
  Revision :: string
  Source :: string

record depLockFile =
  Projects :: "depProject list"

text \<open>
  Modelled from the spec: the rule type of the \<open>rule\<close> package (\<open>rule.Rule\<close>, not among the
  sources). A generated rule is a rule kind, a rule name and an ordered mapping of
  attribute name to value; \<open>SetAttr\<close> replaces the value of an attribute that is present and
  appends a new attribute otherwise. \<open>rule_name\<close> is what \<open>Name()\<close> returns.
\<close>

datatype attr_value = StringValue string | StringList "string list"

record rule =
  rule_kind :: string
  rule_name :: string
  rule_attrs :: "(string \<times> attr_value) list"

definition NewRule :: "string \<Rightarrow> string \<Rightarrow> rule" where
  "NewRule kind name = \<lparr>rule_kind = kind, rule_name = name, rule_attrs = []\<rparr>"

fun set_attr :: "string \<Rightarrow> attr_value \<Rightarrow> (string \<times> attr_value) list \<Rightarrow> (string \<times> attr_value) list" where
  "set_attr key v [] = [(key, v)]"
| "set_attr key v ((k, w) # kvs) =
     (if k = key then (key, v) # kvs else (k, w) # set_attr key v kvs)"

definition SetAttr :: "string \<Rightarrow> attr_value \<Rightarrow> rule \<Rightarrow> rule" where
  "SetAttr key v r = r\<lparr>rule_attrs := set_attr key v (rule_attrs r)\<rparr>"

definition Attr :: "rule \<Rightarrow> string \<Rightarrow> attr_value option" where
  "Attr r key = map_of (rule_attrs r) key"

text \<open>
  What a goroutine does to the outside world, in order: an HTTP GET of a URL, a
  \<open>time.Sleep\<close> of so many seconds, a line printed on standard output.
\<close>

datatype event = Get string | Sleep nat | Print string

text \<open>
  An HTTP response as far as \<open>ruleUsingGoProxy\<close> reads it: the status code, the status
  line, the bytes of the body, and the error (if any) that reading the body to its end
  meets.
\<close>

record response =
  StatusCode :: nat
  Status :: string
  Body :: string
  BodyErr :: "string option"

text \<open>
  The network as one goroutine sees it: the answer to a GET, \<open>Inl\<close> a transport error,
  may depend on the URL and on everything the goroutine has done so far. Nothing is
  assumed about it, so every answer a real proxy could give is covered.
\<close>

type_synonym transport = "event list \<Rightarrow> string \<Rightarrow> string + response"

text \<open>
  The collaborators of the importer that are not code of \<open>dep.go\<close>: the file system
  (\<open>ioutil.ReadFile\<close>), the TOML decoder, \<open>path.Match\<close> (the match and the error for a
  malformed pattern), \<open>label.ImportPathToBazelRepoName\<close>, \<open>unicode.ToLower\<close> over the
  runes of a string, the JSON decoder for the \<open>Version\<close> field of the info response, the
  hex form of the SHA-256 digest, and the network, one view for each goroutine (numbered by
  the index of its project).
\<close>

record go_env =
  ReadFile :: "string \<Rightarrow> string + string"
  Unmarshal :: "string \<Rightarrow> string + depLockFile"
  Match :: "string \<Rightarrow> string \<Rightarrow> bool \<times> string option"
  ImportPathToBazelRepoName :: "string \<Rightarrow> string"
  UnicodeToLower :: "string \<Rightarrow> string"
  DecodeVersion :: "response \<Rightarrow> string + string"
  Sha256Hex :: "string \<Rightarrow> string"
  HttpGet :: "nat \<Rightarrow> transport"

record ImportReposArgs =
  Path :: string
  GoProxy :: string
  GoPrivate :: string

record ImportReposResult =
  Gen :: "rule list"
  Error :: "string option"

definition defaultGoProxyBase :: string where
  "defaultGoProxyBase = ''https://proxy.golang.org''"

subsection \<open>ruleUsingGoProxy\<close>

text \<open>Lines 111 to 121: the module path that goes into the proxy URLs.\<close>

definition proxyModuleName :: "go_env \<Rightarrow> depProject \<Rightarrow> string" where
  "proxyModuleName env project =
     (let name = Name project;
          name = (if Source project \<noteq> []
                  then (let name = Source project;
                            name = (if HasSuffix name ''.git''
                                    then take (length name - length ''.git'') name else name);
                            name = (if HasPrefix name ''https://''
                                    then drop (length ''https://'') name else name)
                        in name)
                  else name)
      in ToLower (UnicodeToLower env) name)"

definition infoURL :: "string \<Rightarrow> string \<Rightarrow> string \<Rightarrow> string" where
  "infoURL goProxyBase name revision = goProxyBase @ ''/'' @ name @ ''/@v/'' @ revision @ ''.info''"

definition zipURL :: "string \<Rightarrow> string \<Rightarrow> string \<Rightarrow> string" where
  "zipURL goProxyBase name version = goProxyBase @ ''/'' @ name @ ''/@v/'' @ version @ ''.zip''"

text \<open>
  \<open>ruleUsingGoProxy\<close> returns the error (\<open>None\<close> is \<open>nil\<close>), the rule as the call leaves
  it, and the goroutine's events so far. The rule is written only on success.
\<close>

definition ruleUsingGoProxy ::
  "go_env \<Rightarrow> transport \<Rightarrow> string \<Rightarrow> depProject \<Rightarrow> rule \<Rightarrow> event list
     \<Rightarrow> string option \<times> rule \<times> event list" where
  "ruleUsingGoProxy env get goProxyBase project r tr =
     (let name = proxyModuleName env project;
          at = name @ ''@'' @ Revision project;
          iurl = infoURL goProxyBase name (Revision project);
          tr1 = tr @ [Get iurl]
      in case get tr iurl of
           Inl err \<Rightarrow> (Some (''failed to fetch info for '' @ at @ '': '' @ err), r, tr1)
         | Inr resp \<Rightarrow>
            (if StatusCode resp \<noteq> 200
             then (Some (''failed to fetch info for '' @ at @ '': '' @ Status resp), r, tr1)
             else (case DecodeVersion env resp of
               Inl err \<Rightarrow> (Some (''failed to decode response for '' @ at @ '': '' @ err), r, tr1)
             | Inr version \<Rightarrow>
                (let zurl = zipURL goProxyBase name version;
                     tr2 = tr1 @ [Get zurl]
                 in (case get tr1 zurl of
                      Inl err \<Rightarrow> (Some (''failed to fetch zip for '' @ at @ '': '' @ err), r, tr2)
                    | Inr resp \<Rightarrow>
                       (if StatusCode resp \<noteq> 200
                        then (Some (''failed to fetch zip for '' @ at @ '': '' @ Status resp), r, tr2)
                        else (case BodyErr resp of
                          Some err \<Rightarrow> (Some (''failed to hash zip for '' @ at @ '': '' @ err), r, tr2)
                        | None \<Rightarrow>
                           (let digest = Sha256Hex env (Body resp);
                                tr3 = tr2 @ [Print (at @ '': '' @ digest @ newline)];
                                r = SetAttr ''urls'' (StringList [zurl]) r;
                                r = SetAttr ''sha256'' (StringValue digest) r;
                                r = SetAttr ''strip_prefix'' (StringValue (name @ ''@'' @ version)) r
                            in (None, r, tr3)))))))))"

subsection \<open>importReposFromDep\<close>

text \<open>
  A Go function either returns or the process dies of a panic: a panic in a goroutine
  that nothing recovers ends the whole program with the panic value.
\<close>

datatype 'a outcome = Returns 'a | Panics string

text \<open>
  Lines 88 to 97, the retry loop from \<open>attempt\<close> on: \<open>Inl err\<close> is \<open>panic(err)\<close>, \<open>Inr\<close> the
  rule when the loop is left. \<open>time.Sleep(5 * time.Second)\<close> is the event \<open>Sleep 5\<close>.
\<close>

function retryLoop ::
  "go_env \<Rightarrow> transport \<Rightarrow> string \<Rightarrow> depProject \<Rightarrow> rule \<Rightarrow> nat \<Rightarrow> event list
     \<Rightarrow> (string + rule) \<times> event list" where
  "retryLoop env get goProxyBase p r attempt tr =
     (if attempt < 5
      then (case ruleUsingGoProxy env get goProxyBase p r tr of
              (None, r', tr') \<Rightarrow> (Inr r', tr')
            | (Some err, r', tr') \<Rightarrow>
                (if attempt = 4 then (Inl err, tr')
                 else retryLoop env get goProxyBase p r' (attempt + 1) (tr' @ [Sleep 5])))
      else (Inr r, tr))"
  by pat_completeness auto
termination
  by (relation "measure (\<lambda>(env, get, goProxyBase, p, r, attempt, tr). 5 - attempt)") auto

text \<open>
  Lines 70 to 100, the goroutine of project \<open>p\<close> at index \<open>i\<close>: the rule it leaves in
  \<open>gen[i]\<close> (or its panic) and its events.
\<close>

definition goroutine ::
  "go_env \<Rightarrow> ImportReposArgs \<Rightarrow> string \<Rightarrow> nat \<Rightarrow> depProject \<Rightarrow> (string + rule) \<times> event list" where
  "goroutine env args goProxyBase i p =
     (let r = NewRule ''go_repository'' (ImportPathToBazelRepoName env (Name p));
          r = SetAttr ''importpath'' (StringValue (Name p)) r
      in case Match env (GoPrivate args) (Name p) of
           (ok, err) \<Rightarrow>
             (if ok \<or> err \<noteq> None
              then (let r = SetAttr ''commit'' (StringValue (Revision p)) r;
                        r = (if Source p \<noteq> []
                             then (let r = SetAttr ''remote'' (StringValue (Source p)) r;
                                       r = SetAttr ''vcs'' (StringValue ''git'') r
                                   in r)
                             else r)
                    in (Inr r, []))
              else retryLoop env (HttpGet env i) goProxyBase p r 0 []))"

text \<open>
  The goroutines run concurrently and share only the slice \<open>gen\<close>, each writing its own
  slot. \<open>sched\<close> is the order in which they complete; the first one to panic ends the
  process. Indices come from the \<open>range\<close> loop, so they are below the number of projects.
\<close>

fun runGoroutines ::
  "go_env \<Rightarrow> ImportReposArgs \<Rightarrow> string \<Rightarrow> depProject list \<Rightarrow> nat list \<Rightarrow> rule option list
     \<Rightarrow> string + rule option list" where
  "runGoroutines env args goProxyBase ps [] gen = Inr gen"
| "runGoroutines env args goProxyBase ps (i # sched) gen =
     (if i < length ps
      then (case fst (goroutine env args goProxyBase i (ps ! i)) of
              Inl err \<Rightarrow> Inl err
            | Inr r \<Rightarrow> runGoroutines env args goProxyBase ps sched (gen[i := Some r]))
      else runGoroutines env args goProxyBase ps sched gen)"

text \<open>
  \<open>wg.Wait()\<close> returns when every goroutine has called \<open>wg.Done()\<close>: a completion order
  of \<open>n\<close> goroutines holds each index below \<open>n\<close> exactly once.
\<close>

definition completion_order :: "nat \<Rightarrow> nat list \<Rightarrow> bool" where
  "completion_order n sched = (sort sched = [0..<n])"

text \<open>
  \<open>importReposFromDep\<close>, with the completion order of its goroutines as a parameter.
  \<open>sort.SliceStable\<close> with the comparison of the names is a stable sort on the key
  \<open>rule_name\<close>. The comparison reads \<open>gen[i].Name()\<close>: a slot still \<open>nil\<close> would be a nil
  dereference (no completion order leaves one).
\<close>

definition importReposFromDep ::
  "go_env \<Rightarrow> nat list \<Rightarrow> ImportReposArgs \<Rightarrow> ImportReposResult outcome" where
  "importReposFromDep env sched args =
     (let goProxyBase = (if GoProxy args = [] then defaultGoProxyBase else GoProxy args)
      in case ReadFile env (Path args) of
           Inl err \<Rightarrow> Returns \<lparr>Gen = [], Error = Some err\<rparr>
         | Inr data \<Rightarrow>
            (case Unmarshal env data of
               Inl err \<Rightarrow> Returns \<lparr>Gen = [], Error = Some err\<rparr>
             | Inr file \<Rightarrow>
                (case runGoroutines env args goProxyBase (Projects file) sched
                        (replicate (length (Projects file)) None) of
                   Inl err \<Rightarrow> Panics err
                 | Inr gen \<Rightarrow>
                    (case those gen of
                       None \<Rightarrow> Panics ''invalid memory address or nil pointer dereference''
                     | Some rs \<Rightarrow> Returns \<lparr>Gen = sort_key rule_name rs, Error = None\<rparr>))))"

section \<open>autogazelle (cmd/autogazelle/autogazelle.go)\<close>

subsection \<open>The operating system\<close>

text \<open>
  The file system maps the path of a regular file to its bytes. The state also keeps, in
  order, the system calls made and the messages given to the logger.
\<close>

datatype sys_op = Stat string | Open string | Create string | Close string | Exec "string list"

record world =
  files :: "string \<rightharpoonup> string"
  ops :: "sys_op list"
  logs :: "string list"

text \<open>
  What the program is given and cannot decide: its name (\<open>filepath.Base(os.Args[0])\<close>),
  the \<open>-gazelle\<close> flag, the variable \<open>BAZEL_REAL\<close>, \<open>filepath.Join\<close> of two elements,
  \<open>filepath.Abs\<close>, the outcome of running a command, and the failures of the system calls:
  of \<open>stat\<close>, \<open>open\<close> and \<open>create\<close> on a path (beyond a missing file), of the header write
  (after so many bytes), of the copy (at a read offset) and of closing the destination.
\<close>

text \<open>
  Modelled from the spec: the directory walker (\<open>walk.Walk\<close>, not among the sources).
  \<open>WalkDirs\<close> gives, for an absolute root, the visited directories in order, each with its
  absolute path and the base names of its regular files.
\<close>

record os_env =
  programName :: string
  gazelleLabel :: string
  BAZEL_REAL :: string
  Join :: "string \<Rightarrow> string \<Rightarrow> string"
  Abs :: "string \<Rightarrow> string + string"
  WalkDirs :: "string \<Rightarrow> (string \<times> string list) list"
  RunCmd :: "string list \<Rightarrow> string option"
  StatErr :: "string \<Rightarrow> string option"
  OpenErr :: "string \<Rightarrow> string option"
  CreateErr :: "string \<Rightarrow> string option"
  FprintfErr :: "(nat \<times> string) option"
  CopyErr :: "nat \<Rightarrow> string option"
  CloseErr :: "string option"

definition content :: "(string \<rightharpoonup> string) \<Rightarrow> string \<Rightarrow> string" where
  "content fs p = (case fs p of None \<Rightarrow> [] | Some b \<Rightarrow> b)"

definition os_Stat :: "os_env \<Rightarrow> world \<Rightarrow> string \<Rightarrow> string option" where
  "os_Stat env w p =
     (case StatErr env p of
        Some err \<Rightarrow> Some err
      | None \<Rightarrow> (case files w p of
                   None \<Rightarrow> Some (''stat '' @ p @ '': no such file or directory'')
                 | Some b \<Rightarrow> None))"

definition os_Open :: "os_env \<Rightarrow> world \<Rightarrow> string \<Rightarrow> string option" where
  "os_Open env w p =
     (case OpenErr env p of
        Some err \<Rightarrow> Some err
      | None \<Rightarrow> (case files w p of
                   None \<Rightarrow> Some (''open '' @ p @ '': no such file or directory'')
                 | Some b \<Rightarrow> None))"

text \<open>\<open>filepath.Base\<close> with \<open>/\<close> as the separator and no volume names.\<close>

definition Base :: "string \<Rightarrow> string" where
  "Base path =
     (if path = [] then ''.''
      else (let path = rev (dropWhile (\<lambda>c. c = CHR ''/'') (rev path));
                path = rev (takeWhile (\<lambda>c. c \<noteq> CHR ''/'') (rev path))
            in if path = [] then ''/'' else path))"

text \<open>\<open>strings.Join\<close>.\<close>

fun JoinStrings :: "string list \<Rightarrow> string \<Rightarrow> string" where
  "JoinStrings [] sep = []"
| "JoinStrings [x] sep = x"
| "JoinStrings (x # y # ys) sep = x @ sep @ JoinStrings (y # ys) sep"

subsection \<open>runGazelle\<close>

datatype mode = fullMode | fastMode

definition runGazelle :: "os_env \<Rightarrow> mode \<Rightarrow> string list \<Rightarrow> world \<Rightarrow> string option \<times> world" where
  "runGazelle env mode dirs w =
     (if mode = fastMode \<and> length dirs = 0 then (None, w)
      else (let args = [BAZEL_REAL env, ''run'', gazelleLabel env, ''--'', ''-args''];
                args = args @ [''-index=false''];
                args = (if mode = fastMode then (args @ [''-r=false'']) @ dirs else args);
                w = w\<lparr>logs := logs w @ [''running gazelle: '' @ JoinStrings args '' '' @ newline]\<rparr>;
                w = w\<lparr>ops := ops w @ [Exec args]\<rparr>
            in (RunCmd env args, w)))"

subsection \<open>restoreFile\<close>

definition header :: "os_env \<Rightarrow> string \<Rightarrow> string" where
  "header env src =
     ''# This file was generated from '' @ Base src @ newline @
     ''# by '' @ programName env @ newline @
     ''# DO NOT EDIT'' @ newline @ newline"

text \<open>
  \<open>io.Copy(w, r)\<close>: the reader is at offset \<open>off\<close> of the file \<open>src\<close>, the writer at the end
  of the file \<open>dest\<close>. Each round reads up to 32768 bytes of what the file \<open>src\<close> holds at
  that moment and appends them to \<open>dest\<close>; the copy ends when a read finds nothing more.
  When both paths name one file every write gives the reader more to read, and the loop
  does not end: the value is \<open>None\<close>.
\<close>

partial_function (option) copyLoop ::
  "os_env \<Rightarrow> string \<Rightarrow> string \<Rightarrow> nat \<Rightarrow> (string \<rightharpoonup> string)
     \<Rightarrow> (string option \<times> (string \<rightharpoonup> string)) option" where
  "copyLoop env src dest off fs =
     (case CopyErr env off of
        Some err \<Rightarrow> Some (Some err, fs)
      | None \<Rightarrow>
         (if take 32768 (drop off (content fs src)) = [] then Some (None, fs)
          else copyLoop env src dest (off + length (take 32768 (drop off (content fs src))))
                 (fs(dest \<mapsto> content fs dest @ take 32768 (drop off (content fs src))))))"

text \<open>
  \<open>restoreFile\<close> returns the error (\<open>None\<close> is \<open>nil\<close>) and the new state, or does not return.
  The deferred calls close the destination, whose error becomes the result when there was
  none before, and then the source.
\<close>

definition restoreFile :: "os_env \<Rightarrow> string \<Rightarrow> string \<Rightarrow> world \<Rightarrow> (string option \<times> world) option" where
  "restoreFile env src dest w =
     (let w = w\<lparr>ops := ops w @ [Open src]\<rparr>
      in case os_Open env w src of
           Some err \<Rightarrow> Some (Some err, w)
         | None \<Rightarrow>
            (let w = w\<lparr>ops := ops w @ [Create dest]\<rparr>
             in case CreateErr env dest of
                  Some err \<Rightarrow> Some (Some err, w\<lparr>ops := ops w @ [Close src]\<rparr>)
                | None \<Rightarrow>
                   (let w = w\<lparr>files := (files w)(dest \<mapsto> [])\<rparr>
                    in case FprintfErr env of
                         Some (n, err) \<Rightarrow>
                           Some (Some err,
                                 w\<lparr>files := (files w)(dest \<mapsto> take n (header env src)),
                                   ops := ops w @ [Close dest, Close src]\<rparr>)
                       | None \<Rightarrow>
                          (let w = w\<lparr>files := (files w)(dest \<mapsto> header env src)\<rparr>
                           in case copyLoop env src dest 0 (files w) of
                                None \<Rightarrow> None
                              | Some (err, fs) \<Rightarrow>
                                  Some (if err = None then CloseErr env else err,
                                        w\<lparr>files := fs, ops := ops w @ [Close dest, Close src]\<rparr>)))))"

subsection \<open>restoreBuildFilesInDir and restoreBuildFilesInRepo\<close>

text \<open>The loop of \<open>restoreBuildFilesInDir\<close> over the base names; \<open>log.Print(err)\<close> adds to the log.\<close>

fun restoreBases :: "os_env \<Rightarrow> string \<Rightarrow> string list \<Rightarrow> world \<Rightarrow> world option" where
  "restoreBases env dir [] w = Some w"
| "restoreBases env dir (base # bases) w =
     (let inPath = Join env dir (base @ ''.in'');
          w = w\<lparr>ops := ops w @ [Stat inPath]\<rparr>
      in case os_Stat env w inPath of
           Some err \<Rightarrow> restoreBases env dir bases w
         | None \<Rightarrow>
            (case restoreFile env inPath (Join env dir base) w of
               None \<Rightarrow> None
             | Some (None, w) \<Rightarrow> restoreBases env dir bases w
             | Some (Some err, w) \<Rightarrow> restoreBases env dir bases (w\<lparr>logs := logs w @ [err]\<rparr>)))"

definition restoreBuildFilesInDir :: "os_env \<Rightarrow> string \<Rightarrow> world \<Rightarrow> world option" where
  "restoreBuildFilesInDir env dir w = restoreBases env dir [''BUILD.bazel'', ''BUILD''] w"

text \<open>
  \<open>walkWorkspace\<close>: the callback changes the state (or does not return). The function has
  no result; what the caller gets back is the state.
\<close>

fun walkCalls ::
  "(string \<Rightarrow> string list \<Rightarrow> world \<Rightarrow> world option) \<Rightarrow> (string \<times> string list) list \<Rightarrow> world
     \<Rightarrow> world option" where
  "walkCalls walkFunc [] w = Some w"
| "walkCalls walkFunc ((dir, regularFiles) # rest) w =
     (case walkFunc dir regularFiles w of
        None \<Rightarrow> None
      | Some w \<Rightarrow> walkCalls walkFunc rest w)"

definition walkWorkspace ::
  "os_env \<Rightarrow> string \<Rightarrow> (string \<Rightarrow> string list \<Rightarrow> world \<Rightarrow> world option) \<Rightarrow> world \<Rightarrow> world option" where
  "walkWorkspace env root walkFunc w =
     (case Abs env root of
        Inl err \<Rightarrow> Some (w\<lparr>logs := logs w @ [''failed to find absolute path: '' @ err]\<rparr>)
      | Inr root \<Rightarrow> walkCalls walkFunc (WalkDirs env root) w)"

text \<open>The callback of \<open>restoreBuildFilesInRepo\<close>: the loop over the files of a directory.\<close>

fun restoreFiles :: "os_env \<Rightarrow> string \<Rightarrow> string list \<Rightarrow> world \<Rightarrow> world option" where
  "restoreFiles env dir [] w = Some w"
| "restoreFiles env dir (file # rest) w =
     (if file \<noteq> ''BUILD.bazel.in'' \<and> file \<noteq> ''BUILD.in'' then restoreFiles env dir rest w
      else (let path = Join env dir file
            in case restoreFile env path (TrimSuffix path ''.in'') w of
                 None \<Rightarrow> None
               | Some (None, w) \<Rightarrow> restoreFiles env dir rest w
               | Some (Some err, w) \<Rightarrow> restoreFiles env dir rest (w\<lparr>logs := logs w @ [err]\<rparr>)))"

definition restoreBuildFilesInRepo :: "os_env \<Rightarrow> world \<Rightarrow> world option" where
  "restoreBuildFilesInRepo env w = walkWorkspace env ''.'' (restoreFiles env) w"

section \<open>The module path in the words of the specification\<close>

text \<open>
  \<open>strings.TrimPrefix\<close>, and the module path as the specification describes it: the source
  override when there is one, without a trailing \<open>.git\<close> and without a leading
  \<open>https://\<close>, otherwise the name; the result in lower case. It is compared below with
  \<open>proxyModuleName\<close>, which follows the code.
\<close>

definition TrimPrefix :: "string \<Rightarrow> string \<Rightarrow> string" where
  "TrimPrefix s pre = (if HasPrefix s pre then drop (length pre) s else s)"

definition spec_module_path :: "(string \<Rightarrow> string) \<Rightarrow> depProject \<Rightarrow> string" where
  "spec_module_path ul p =
     ToLower ul (if Source p \<noteq> [] then TrimPrefix (TrimSuffix (Source p) ''.git'') ''https://''
                 else Name p)"

section \<open>Concrete inputs\<close>

text \<open>
  A manifest of two projects, the second with a source override, and collaborators that
  answer every request: the proxy answers each GET with status 200 and the body
  \<open>v1.0.0\<close>, which the decoder reads as the version.
\<close>

definition example_projects :: "depProject list" where
  "example_projects =
     [\<lparr>Name = ''b.org/y'', Revision = ''r2'', Source = ''''\<rparr>,
      \<lparr>Name = ''a.org/x'', Revision = ''r1'', Source = ''https://a.org/x.git''\<rparr>]"

definition example_env :: go_env where
  "example_env =
     \<lparr>ReadFile = (\<lambda>path. if path = ''Gopkg.lock'' then Inr ''lock'' else Inl ''no such file''),
      Unmarshal = (\<lambda>data. Inr \<lparr>Projects = example_projects\<rparr>),
      Match = (\<lambda>pattern name. (pattern = name, None)),
      ImportPathToBazelRepoName = map (\<lambda>c. if c = CHR ''/'' then CHR ''_'' else c),
      UnicodeToLower = (\<lambda>s. s),
      DecodeVersion = (\<lambda>resp. Inr (Body resp)),
      Sha256Hex = (\<lambda>body. ''e3b0''),
      HttpGet = (\<lambda>i tr url. Inr \<lparr>StatusCode = 200, Status = ''200 OK'', Body = ''v1.0.0'',
                                    BodyErr = None\<rparr>)\<rparr>"

definition example_args :: ImportReposArgs where
  "example_args = \<lparr>Path = ''Gopkg.lock'', GoProxy = '''', GoPrivate = ''a.org/x''\<rparr>"

text \<open>A workspace with one template and a stale generated file, and a system without faults.\<close>

definition example_os :: os_env where
  "example_os =
     \<lparr>programName = ''autogazelle'', gazelleLabel = ''//:gazelle'', BAZEL_REAL = ''bazel'',
      Join = (\<lambda>dir file. dir @ ''/'' @ file),
      Abs = (\<lambda>path. Inr ''/ws''),
      WalkDirs = (\<lambda>root. [(root, [''BUILD.in''])]),
      RunCmd = (\<lambda>args. None),
      StatErr = (\<lambda>path. None), OpenErr = (\<lambda>path. None), CreateErr = (\<lambda>path. None),
      FprintfErr = None, CopyErr = (\<lambda>off. None), CloseErr = None\<rparr>"

definition example_world :: world where
  "example_world =
     \<lparr>files = [''/ws/BUILD.in'' \<mapsto> ''x = 1'', ''/ws/BUILD'' \<mapsto> ''stale''], ops = [], logs = []\<rparr>"

text \<open>
  The rules the importer is to give for \<open>example_projects\<close> with \<open>example_args\<close>: the
  project \<open>a.org/x\<close> is private, the project \<open>b.org/y\<close> goes through the proxy.
\<close>

definition example_gen :: "rule list" where
  "example_gen =
     [\<lparr>rule_kind = ''go_repository'', rule_name = ''a.org_x'',
       rule_attrs = [(''importpath'', StringValue ''a.org/x''), (''commit'', StringValue ''r1''),
                     (''remote'', StringValue ''https://a.org/x.git''), (''vcs'', StringValue ''git'')]\<rparr>,
      \<lparr>rule_kind = ''go_repository'', rule_name = ''b.org_y'',
       rule_attrs = [(''importpath'', StringValue ''b.org/y''),
                     (''urls'', StringList [''https://proxy.golang.org/b.org/y/@v/v1.0.0.zip'']),
                     (''sha256'', StringValue ''e3b0''),
                     (''strip_prefix'', StringValue ''b.org/y@v1.0.0'')]\<rparr>]"

text \<open>
  A manifest in which two projects get one rule name (\<open>c/d\<close> and \<open>c_d\<close> both give
  \<open>c_d\<close>), listed after a project whose rule name is greater; all three are private.
\<close>

definition clash_projects :: "depProject list" where
  "clash_projects =
     [\<lparr>Name = ''e'', Revision = ''r0'', Source = ''''\<rparr>,
      \<lparr>Name = ''c/d'', Revision = ''r2'', Source = ''''\<rparr>,
      \<lparr>Name = ''c_d'', Revision = ''r1'', Source = ''''\<rparr>]"

definition clash_env :: go_env where
  "clash_env = example_env\<lparr>Unmarshal := (\<lambda>data. Inr \<lparr>Projects = clash_projects\<rparr>),
                             Match := (\<lambda>pattern name. (True, None))\<rparr>"

definition clash_gen :: "rule list" where
  "clash_gen =
     [\<lparr>rule_kind = ''go_repository'', rule_name = ''c_d'',
       rule_attrs = [(''importpath'', StringValue ''c/d''), (''commit'', StringValue ''r2'')]\<rparr>,
      \<lparr>rule_kind = ''go_repository'', rule_name = ''c_d'',
       rule_attrs = [(''importpath'', StringValue ''c_d''), (''commit'', StringValue ''r1'')]\<rparr>,
      \<lparr>rule_kind = ''go_repository'', rule_name = ''e'',
       rule_attrs = [(''importpath'', StringValue ''e''), (''commit'', StringValue ''r0'')]\<rparr>]"

text \<open>The same collaborators with a proxy that cannot be reached.\<close>

definition offline_env :: go_env where
  "offline_env = example_env\<lparr>HttpGet := (\<lambda>i tr url. Inl ''connection refused'')\<rparr>"

text \<open>The state after the template of \<open>example_world\<close> has been restored.\<close>

definition restored_world :: world where
  "restored_world =
     \<lparr>files = [''/ws/BUILD.in'' \<mapsto> ''x = 1'',
               ''/ws/BUILD'' \<mapsto> ''# This file was generated from BUILD.in'' @ newline @
                                ''# by autogazelle'' @ newline @
                                ''# DO NOT EDIT'' @ newline @ newline @ ''x = 1''],
      ops = [Open ''/ws/BUILD.in'', Create ''/ws/BUILD'', Close ''/ws/BUILD'', Close ''/ws/BUILD.in''],
      logs = []\<rparr>"

section \<open>What a caller of the walk is given\<close>

text \<open>
  \<open>walkWorkspace\<close> is declared without results (\<open>func walkWorkspace(root string, walkFunc
  func(dir string, files []string))\<close>), so a call hands no value back. What its caller has
  after the call is the file system, and the system calls that were made; the log is
  written to the logger's output and never read by the program.
\<close>

definition caller_view :: "world option \<Rightarrow> ((string \<rightharpoonup> string) \<times> sys_op list) option" where
  "caller_view r = map_option (\<lambda>w. (files w, ops w)) r"

text \<open>
  Two systems: one in which the working directory cannot be made absolute, one in which
  the walk visits a single directory without templates.
\<close>

definition no_abs_os :: os_env where
  "no_abs_os = example_os\<lparr>Abs := (\<lambda>path. Inl ''getwd: no such file or directory'')\<rparr>"

definition plain_os :: os_env where
  "plain_os = example_os\<lparr>WalkDirs := (\<lambda>root. [(root, [''main.go''])])\<rparr>"


section \<open>Properties of the dependency importer\<close>

subsection \<open>Rules and attributes\<close>

declare retryLoop.simps [simp del]

lemma map_of_set_attr: "map_of (set_attr k v kvs) = (map_of kvs)(k \<mapsto> v)"
  by (induction kvs) auto

lemma Attr_SetAttr: "Attr (SetAttr k v r) k' = (if k' = k then Some v else Attr r k')"
  by (simp add: Attr_def SetAttr_def map_of_set_attr)

lemma rule_name_SetAttr: "rule_name (SetAttr k v r) = rule_name r"
  by (simp add: SetAttr_def)

lemma rule_kind_SetAttr: "rule_kind (SetAttr k v r) = rule_kind r"
  by (simp add: SetAttr_def)

lemma rule_kind_NewRule: "rule_kind (NewRule kind name) = kind"
  by (simp add: NewRule_def)

lemma rule_name_NewRule: "rule_name (NewRule kind name) = name"
  by (simp add: NewRule_def)

lemma Attr_NewRule: "Attr (NewRule kind name) key = None"
  by (simp add: NewRule_def Attr_def)

lemma ruleUsingGoProxy_name:
  "ruleUsingGoProxy env get b p r tr = (e, r', tr') \<Longrightarrow> rule_name r' = rule_name r"
  by (auto simp: ruleUsingGoProxy_def Let_def rule_name_SetAttr split: sum.splits if_splits option.splits)

lemma retryLoop_name:
  "retryLoop env get b p r a tr = (Inr r', tr') \<Longrightarrow> rule_name r' = rule_name r"
proof (induction env get b p r a tr rule: retryLoop.induct)
  case (1 env get b p r a tr)
  show ?case
  proof (cases "a < 5")
    case False
    with "1.prems" show ?thesis by (simp add: retryLoop.simps)
  next
    case True
    obtain e r1 tr1 where u: "ruleUsingGoProxy env get b p r tr = (e, r1, tr1)"
      by (cases "ruleUsingGoProxy env get b p r tr") auto
    have n1: "rule_name r1 = rule_name r" using u by (rule ruleUsingGoProxy_name)
    show ?thesis
    proof (cases e)
      case None
      with True u "1.prems" n1 show ?thesis by (simp add: retryLoop.simps)
    next
      case (Some err)
      show ?thesis
      proof (cases "a = 4")
        case True
        with \<open>a < 5\<close> u Some "1.prems" show ?thesis by (simp add: retryLoop.simps)
      next
        case False
        with \<open>a < 5\<close> u Some "1.prems"
        have "retryLoop env get b p r1 (a + 1) (tr1 @ [Sleep 5]) = (Inr r', tr')"
          by (simp add: retryLoop.simps)
        with "1.IH" [OF \<open>a < 5\<close> u [symmetric] Some refl False] n1 show ?thesis by simp
      qed
    qed
  qed
qed

lemma goroutine_name:
  "fst (goroutine env args b i p) = Inr r \<Longrightarrow> rule_name r = ImportPathToBazelRepoName env (Name p)"
proof -
  assume a: "fst (goroutine env args b i p) = Inr r"
  obtain ok err where m: "Match env (GoPrivate args) (Name p) = (ok, err)"
    by (cases "Match env (GoPrivate args) (Name p)") auto
  show ?thesis
  proof (cases "ok \<or> err \<noteq> None")
    case True
    with a m show ?thesis
      by (auto simp: goroutine_def Let_def rule_name_SetAttr NewRule_def split: if_splits)
  next
    case False
    with a m obtain tr' where
      "retryLoop env (HttpGet env i) b p
         (SetAttr ''importpath'' (StringValue (Name p))
            (NewRule ''go_repository'' (ImportPathToBazelRepoName env (Name p)))) 0 [] = (Inr r, tr')"
      by (cases "retryLoop env (HttpGet env i) b p
         (SetAttr ''importpath'' (StringValue (Name p))
            (NewRule ''go_repository'' (ImportPathToBazelRepoName env (Name p)))) 0 []")
         (auto simp: goroutine_def Let_def)
    from retryLoop_name [OF this] show ?thesis
      by (simp add: rule_name_SetAttr NewRule_def)
  qed
qed

lemma runGoroutines_Inr:
  "runGoroutines env args b ps sched gen = Inr gen' \<Longrightarrow>
   length gen' = length gen \<and>
   (\<forall>i. i \<in> set sched \<and> i < length ps \<and> i < length gen \<longrightarrow>
        map_option Inr (gen' ! i) = Some (fst (goroutine env args b i (ps ! i)))) \<and>
   (\<forall>i. i \<notin> set sched \<longrightarrow> gen' ! i = gen ! i)"
proof (induction sched arbitrary: gen)
  case Nil
  then show ?case by simp
next
  case (Cons j sched)
  show ?case
  proof (cases "j < length ps")
    case False
    with Cons.prems have "runGoroutines env args b ps sched gen = Inr gen'" by simp
    from Cons.IH [OF this] False show ?thesis by auto
  next
    case True
    with Cons.prems obtain r where
      r: "fst (goroutine env args b j (ps ! j)) = Inr r" and
      rec: "runGoroutines env args b ps sched (gen[j := Some r]) = Inr gen'"
      by (auto split: sum.splits)
    note ih = Cons.IH [OF rec]
    have len: "length gen' = length gen" using ih by simp
    have inS: "\<forall>i. i \<in> set (j # sched) \<and> i < length ps \<and> i < length gen \<longrightarrow>
        map_option Inr (gen' ! i) = Some (fst (goroutine env args b i (ps ! i)))"
    proof (intro allI impI)
      fix i assume i: "i \<in> set (j # sched) \<and> i < length ps \<and> i < length gen"
      show "map_option Inr (gen' ! i) = Some (fst (goroutine env args b i (ps ! i)))"
      proof (cases "i \<in> set sched")
        case True
        with ih i show ?thesis by simp
      next
        case False
        with i have "i = j" by simp
        moreover from ih False have "gen' ! i = (gen[j := Some r]) ! i" by simp
        ultimately show ?thesis using i r by simp
      qed
    qed
    have notS: "\<forall>i. i \<notin> set (j # sched) \<longrightarrow> gen' ! i = gen ! i"
      using ih by auto
    from len inS notS show ?thesis by blast
  qed
qed

lemma runGoroutines_Inl:
  "runGoroutines env args b ps sched gen = Inl err \<Longrightarrow>
   \<exists>i\<in>set sched. i < length ps \<and> fst (goroutine env args b i (ps ! i)) = Inl err"
  by (induction sched arbitrary: gen) (auto split: if_splits sum.splits)


lemma those_map_Some: "those (map Some xs) = Some xs"
  by (induction xs) auto

lemma completion_order_set: "completion_order n sched \<Longrightarrow> set sched = {0..<n}"
proof -
  assume "completion_order n sched"
  then have "set (sort sched) = set [0..<n]" by (simp add: completion_order_def)
  then show ?thesis by simp
qed

lemma goroutines_all_done:
  assumes run: "runGoroutines env args b ps sched (replicate (length ps) None) = Inr gen"
    and co: "completion_order (length ps) sched"
  shows "map (map_option Inr) gen = map (\<lambda>i. Some (fst (goroutine env args b i (ps ! i)))) [0..<length ps]"
proof (rule nth_equalityI)
  from runGoroutines_Inr [OF run] show "length (map (map_option Inr) gen) =
     length (map (\<lambda>i. Some (fst (goroutine env args b i (ps ! i)))) [0..<length ps])" by simp
next
  fix i assume "i < length (map (map_option Inr) gen)"
  with runGoroutines_Inr [OF run] have i: "i < length ps" by simp
  with completion_order_set [OF co] have "i \<in> set sched" by simp
  with runGoroutines_Inr [OF run] i
  have "map_option Inr (gen ! i) = Some (fst (goroutine env args b i (ps ! i)))" by simp
  with i runGoroutines_Inr [OF run]
  show "map (map_option Inr) gen ! i =
     map (\<lambda>i. Some (fst (goroutine env args b i (ps ! i)))) [0..<length ps] ! i" by simp
qed

lemma map_Some_Inr:
  "map (map_option Inr) gen = map Some xs \<Longrightarrow> \<exists>rs. gen = map Some rs \<and> map Inr rs = xs"
proof (induction gen arbitrary: xs)
  case Nil
  then show ?case by simp
next
  case (Cons g gen)
  then obtain x xs' where xs: "xs = x # xs'" by (cases xs) auto
  with Cons.prems have g: "map_option Inr g = Some x" and rest: "map (map_option Inr) gen = map Some xs'"
    by simp_all
  from g obtain r where r: "g = Some r" "x = Inr r" by (cases g) auto
  from Cons.IH [OF rest] obtain rs where "gen = map Some rs" "map Inr rs = xs'" by blast
  with r xs have "g # gen = map Some (r # rs) \<and> map Inr (r # rs) = xs" by simp
  then show ?case by (rule exI [of _ "r # rs"])
qed


subsection \<open>The result of the import\<close>

lemma map_insort_key: "map f (insort_key f x xs) = insort (f x) (map f xs)"
  by (induction xs) auto

lemma map_sort_key: "map f (sort_key f xs) = sort (map f xs)"
  by (induction xs) (simp_all add: map_insort_key)

lemma slots_nth:
  assumes slots: "map Inr rs = map (\<lambda>i. fst (goroutine env args b i (ps ! i))) [0..<length ps]"
  shows "length rs = length ps \<and>
         (\<forall>i<length ps. fst (goroutine env args b i (ps ! i)) = Inr (rs ! i) \<and>
                         rule_name (rs ! i) = ImportPathToBazelRepoName env (Name (ps ! i)))"
proof -
  have len: "length rs = length ps"
    using arg_cong [OF slots, of length] by simp
  have "fst (goroutine env args b i (ps ! i)) = Inr (rs ! i) \<and>
        rule_name (rs ! i) = ImportPathToBazelRepoName env (Name (ps ! i))" if i: "i < length ps" for i
  proof -
    have "map Inr rs ! i = map (\<lambda>i. fst (goroutine env args b i (ps ! i))) [0..<length ps] ! i"
      by (rule arg_cong [OF slots, of "\<lambda>xs. xs ! i"])
    with i len have g: "fst (goroutine env args b i (ps ! i)) = Inr (rs ! i)" by simp
    from goroutine_name [OF g] g show ?thesis by simp
  qed
  with len show ?thesis by blast
qed

lemma slots_names:
  assumes slots: "map Inr rs = map (\<lambda>i. fst (goroutine env args b i (ps ! i))) [0..<length ps]"
  shows "map rule_name rs = map (\<lambda>p. ImportPathToBazelRepoName env (Name p)) ps"
proof (rule nth_equalityI)
  from slots_nth [OF slots] show "length (map rule_name rs)
      = length (map (\<lambda>p. ImportPathToBazelRepoName env (Name p)) ps)" by simp
next
  fix i assume "i < length (map rule_name rs)"
  with slots_nth [OF slots]
  show "map rule_name rs ! i = map (\<lambda>p. ImportPathToBazelRepoName env (Name p)) ps ! i"
    by simp
qed


text \<open>
  When every goroutine has completed, in whatever order, and none has panicked, the slots
  hold the goroutines' rules in the order of the manifest, and the result is these rules
  sorted.
\<close>

lemma import_of_slots:
  assumes rf: "ReadFile env (Path args) = Inr data"
    and um: "Unmarshal env data = Inr file"
    and co: "completion_order (length (Projects file)) sched"
    and slots: "map Inr rs =
      map (\<lambda>i. fst (goroutine env args
                 (if GoProxy args = [] then defaultGoProxyBase else GoProxy args) i (Projects file ! i)))
        [0..<length (Projects file)]"
  shows "importReposFromDep env sched args = Returns \<lparr>Gen = sort_key rule_name rs, Error = None\<rparr>"
proof -
  let ?b = "if GoProxy args = [] then defaultGoProxyBase else GoProxy args"
  let ?ps = "Projects file"
  from slots_nth [OF slots]
  have slot: "fst (goroutine env args ?b i (?ps ! i)) = Inr (rs ! i)" if "i < length ?ps" for i
    using that by blast
  obtain gen where run: "runGoroutines env args ?b ?ps sched (replicate (length ?ps) None) = Inr gen"
  proof (cases "runGoroutines env args ?b ?ps sched (replicate (length ?ps) None)")
    case (Inl err)
    from runGoroutines_Inl [OF Inl] obtain i where
      "i < length ?ps" "fst (goroutine env args ?b i (?ps ! i)) = Inl err" by blast
    with slot [of i] show ?thesis by simp
  next
    case (Inr gen)
    with that show ?thesis by blast
  qed
  from goroutines_all_done [OF run co]
  have "map (map_option Inr) gen
      = map Some (map (\<lambda>i. fst (goroutine env args ?b i (?ps ! i))) [0..<length ?ps])"
    by (simp add: comp_def)
  also have "\<dots> = map Some (map Inr rs)"
    by (rule arg_cong [OF slots [symmetric]])
  finally have "map (map_option Inr) gen = map Some (map Inr rs :: (string + rule) list)" .
  from map_Some_Inr [OF this] obtain rs' where rs': "gen = map Some rs'" "map Inr rs' = (map Inr rs :: (string + rule) list)"
    by blast
  from rs'(2) have "rs' = rs" by (simp add: inj_map_eq_map)
  with rs'(1) have "those gen = Some rs" by (simp add: those_map_Some)
  with rf um run show ?thesis
    by (simp add: importReposFromDep_def Let_def)
qed

lemma import_returns:
  assumes rf: "ReadFile env (Path args) = Inr data"
    and um: "Unmarshal env data = Inr file"
    and co: "completion_order (length (Projects file)) sched"
    and ret: "importReposFromDep env sched args = Returns res"
  shows "\<exists>rs. map Inr rs =
      map (\<lambda>i. fst (goroutine env args
                 (if GoProxy args = [] then defaultGoProxyBase else GoProxy args) i (Projects file ! i)))
        [0..<length (Projects file)] \<and>
      res = \<lparr>Gen = sort_key rule_name rs, Error = None\<rparr>"
proof -
  let ?b = "if GoProxy args = [] then defaultGoProxyBase else GoProxy args"
  let ?ps = "Projects file"
  from rf um ret obtain gen where
    run: "runGoroutines env args ?b ?ps sched (replicate (length ?ps) None) = Inr gen"
    by (cases "runGoroutines env args ?b ?ps sched (replicate (length ?ps) None)")
       (auto simp: importReposFromDep_def Let_def)
  from goroutines_all_done [OF run co]
  have "map (map_option Inr) gen
      = map Some (map (\<lambda>i. fst (goroutine env args ?b i (?ps ! i))) [0..<length ?ps])"
    by (simp add: comp_def)
  from map_Some_Inr [OF this] obtain rs where
    rs: "gen = map Some rs"
      "map Inr rs = map (\<lambda>i. fst (goroutine env args ?b i (?ps ! i))) [0..<length ?ps]"
    by blast
  from rs(1) have "those gen = Some rs" by (simp add: those_map_Some)
  with rf um run ret have "res = \<lparr>Gen = sort_key rule_name rs, Error = None\<rparr>"
    by (simp add: importReposFromDep_def Let_def)
  with rs(2) show ?thesis by blast
qed


subsection \<open>Private projects\<close>

text \<open>
  The goroutine of a project whose name matches the private pattern, or whose pattern
  \<open>path.Match\<close> rejects as malformed: it makes no request (its events are none) and
  leaves a rule with the revision as \<open>commit\<close>.
\<close>

lemma goroutine_private:
  assumes m: "Match env (GoPrivate args) (Name p) = (ok, err)"
    and priv: "ok \<or> err \<noteq> None"
  shows "\<exists>r. goroutine env args goProxyBase i p = (Inr r, []) \<and>
           rule_kind r = ''go_repository'' \<and>
           rule_name r = ImportPathToBazelRepoName env (Name p) \<and>
           Attr r ''importpath'' = Some (StringValue (Name p)) \<and>
           Attr r ''commit'' = Some (StringValue (Revision p)) \<and>
           (Source p \<noteq> [] \<longrightarrow>
              Attr r ''remote'' = Some (StringValue (Source p)) \<and>
              Attr r ''vcs'' = Some (StringValue ''git'')) \<and>
           (Source p = [] \<longrightarrow> Attr r ''remote'' = None \<and> Attr r ''vcs'' = None) \<and>
           Attr r ''urls'' = None \<and> Attr r ''sha256'' = None \<and> Attr r ''strip_prefix'' = None"
proof (cases "Source p = []")
  case True
  with m priv show ?thesis
    by (simp add: goroutine_def Let_def Attr_SetAttr rule_name_SetAttr rule_kind_SetAttr
        rule_kind_NewRule rule_name_NewRule Attr_NewRule)
next
  case False
  with m priv show ?thesis
    by (simp add: goroutine_def Let_def Attr_SetAttr rule_name_SetAttr rule_kind_SetAttr
        rule_kind_NewRule rule_name_NewRule Attr_NewRule)
qed

text \<open>
  Claim C3, as the code has it. Let the manifest be read and decoded and let project \<open>i\<close>
  match the private pattern (or the pattern be malformed). Its goroutine has no events, so
  no GET is sent for this project, and it makes a \<open>go_repository\<close> rule named after the
  project, with the project's name as \<open>importpath\<close> and its revision as \<open>commit\<close>; with a
  source override also the source as \<open>remote\<close> and \<open>git\<close> as \<open>vcs\<close>, without one
  neither; and none of the attributes the proxy gives. Whenever \<open>importReposFromDep\<close>
  returns, its goroutines having completed in the order \<open>sched\<close>, this rule is in the
  returned list \<open>Gen\<close>. The condition that the import returns cannot be dropped, as the
  run computed after the theorem shows.
\<close>

theorem private_project_rule:
  assumes rf: "ReadFile env (Path args) = Inr data"
    and um: "Unmarshal env data = Inr file"
    and co: "completion_order (length (Projects file)) sched"
    and i: "i < length (Projects file)"
    and m: "Match env (GoPrivate args) (Name (Projects file ! i)) = (ok, err)"
    and priv: "ok \<or> err \<noteq> None"
  shows "\<exists>r. goroutine env args (if GoProxy args = [] then defaultGoProxyBase else GoProxy args) i
             (Projects file ! i) = (Inr r, []) \<and>
           rule_kind r = ''go_repository'' \<and>
           rule_name r = ImportPathToBazelRepoName env (Name (Projects file ! i)) \<and>
           Attr r ''importpath'' = Some (StringValue (Name (Projects file ! i))) \<and>
           Attr r ''commit'' = Some (StringValue (Revision (Projects file ! i))) \<and>
           (Source (Projects file ! i) \<noteq> [] \<longrightarrow>
              Attr r ''remote'' = Some (StringValue (Source (Projects file ! i))) \<and>
              Attr r ''vcs'' = Some (StringValue ''git'')) \<and>
           (Source (Projects file ! i) = [] \<longrightarrow>
              Attr r ''remote'' = None \<and> Attr r ''vcs'' = None) \<and>
           Attr r ''urls'' = None \<and> Attr r ''sha256'' = None \<and> Attr r ''strip_prefix'' = None \<and>
           (\<forall>res. importReposFromDep env sched args = Returns res \<longrightarrow> r \<in> set (Gen res))"
proof -
  let ?b = "if GoProxy args = [] then defaultGoProxyBase else GoProxy args"
  let ?p = "Projects file ! i"
  from goroutine_private [OF m priv, of ?b i] obtain r where
    g: "goroutine env args ?b i ?p = (Inr r, [])" and
    props: "rule_kind r = ''go_repository''"
      "rule_name r = ImportPathToBazelRepoName env (Name ?p)"
      "Attr r ''importpath'' = Some (StringValue (Name ?p))"
      "Attr r ''commit'' = Some (StringValue (Revision ?p))"
      "Source ?p \<noteq> [] \<longrightarrow>
         Attr r ''remote'' = Some (StringValue (Source ?p)) \<and> Attr r ''vcs'' = Some (StringValue ''git'')"
      "Source ?p = [] \<longrightarrow> Attr r ''remote'' = None \<and> Attr r ''vcs'' = None"
      "Attr r ''urls'' = None" "Attr r ''sha256'' = None" "Attr r ''strip_prefix'' = None"
    by blast
  have mem: "r \<in> set (Gen res)" if ret: "importReposFromDep env sched args = Returns res" for res
  proof -
    from import_returns [OF rf um co ret] obtain rs where
      slots: "map Inr rs =
        map (\<lambda>i. fst (goroutine env args ?b i (Projects file ! i))) [0..<length (Projects file)]"
      and res: "res = \<lparr>Gen = sort_key rule_name rs, Error = None\<rparr>"
      by blast
    from slots_nth [OF slots] i have len: "length rs = length (Projects file)"
      and slot: "fst (goroutine env args ?b i ?p) = Inr (rs ! i)"
      by simp_all
    from g slot have "r = rs ! i" by simp
    with i len have "r \<in> set rs" by simp
    with res show ?thesis by simp
  qed
  from g props mem show ?thesis by blast
qed

theorem private_project_rule_witness:
  "ReadFile example_env (Path example_args) = Inr ''lock'' \<and>
   Unmarshal example_env ''lock'' = Inr \<lparr>Projects = example_projects\<rparr> \<and>
   completion_order (length example_projects) [1, 0] \<and>
   importReposFromDep example_env [1, 0] example_args = Returns \<lparr>Gen = example_gen, Error = None\<rparr> \<and>
   Match example_env (GoPrivate example_args) (Name (example_projects ! 1)) = (True, None) \<and>
   (\<exists>r. r \<in> set example_gen \<and>
        goroutine example_env example_args defaultGoProxyBase 1 (example_projects ! 1) = (Inr r, []) \<and>
        rule_name r = ''a.org_x'' \<and>
        Attr r ''commit'' = Some (StringValue ''r1'') \<and>
        Attr r ''remote'' = Some (StringValue ''https://a.org/x.git'') \<and>
        Attr r ''vcs'' = Some (StringValue ''git''))"
proof -
  have rf: "ReadFile example_env (Path example_args) = Inr ''lock''"
    by (simp add: example_env_def example_args_def)
  have um: "Unmarshal example_env ''lock'' = Inr \<lparr>Projects = example_projects\<rparr>"
    by (simp add: example_env_def)
  have co: "completion_order (length (Projects \<lparr>Projects = example_projects\<rparr>)) [1, 0]"
    by code_simp
  have ret: "importReposFromDep example_env [1, 0] example_args
      = Returns \<lparr>Gen = example_gen, Error = None\<rparr>"
    by code_simp
  have i: "1 < length (Projects \<lparr>Projects = example_projects\<rparr>)"
    by (simp add: example_projects_def)
  have m: "Match example_env (GoPrivate example_args)
             (Name (Projects \<lparr>Projects = example_projects\<rparr> ! 1)) = (True, None)"
    by (simp add: example_env_def example_args_def example_projects_def)
  have s: "Source (example_projects ! 1) = ''https://a.org/x.git''"
    "Revision (example_projects ! 1) = ''r1''"
    "ImportPathToBazelRepoName example_env (Name (example_projects ! 1)) = ''a.org_x''"
    "GoProxy example_args = []"
    by (simp_all add: example_projects_def example_env_def example_args_def)
  from private_project_rule [OF rf um co i m] ret s rf um co m show ?thesis
    by auto
qed

text \<open>
  The claim without that condition does not hold: a project that matches the private
  pattern does not always get a rule. In \<open>example_projects\<close> the project \<open>a.org/x\<close> is
  private and \<open>b.org/y\<close> is not; when the proxy cannot be reached the goroutine of
  \<open>b.org/y\<close> panics after its last attempt, the process ends, and \<open>importReposFromDep\<close>
  returns no rule for either project, in whatever order the goroutines complete.
\<close>

theorem private_project_no_rule:
  "\<not> (\<forall>env args sched data file i.
        ReadFile env (Path args) = Inr data \<and>
        Unmarshal env data = Inr file \<and>
        completion_order (length (Projects file)) sched \<and>
        i < length (Projects file) \<and>
        fst (Match env (GoPrivate args) (Name (Projects file ! i))) \<longrightarrow>
        (\<exists>res r. importReposFromDep env sched args = Returns res \<and>
                  r \<in> set (Gen res) \<and>
                  Attr r ''commit'' = Some (StringValue (Revision (Projects file ! i)))))"
proof
  assume a: "\<forall>env args sched data file i.
        ReadFile env (Path args) = Inr data \<and>
        Unmarshal env data = Inr file \<and>
        completion_order (length (Projects file)) sched \<and>
        i < length (Projects file) \<and>
        fst (Match env (GoPrivate args) (Name (Projects file ! i))) \<longrightarrow>
        (\<exists>res r. importReposFromDep env sched args = Returns res \<and>
                  r \<in> set (Gen res) \<and>
                  Attr r ''commit'' = Some (StringValue (Revision (Projects file ! i))))"
  have rf: "ReadFile offline_env (Path example_args) = Inr ''lock''"
    by (simp add: offline_env_def example_env_def example_args_def)
  have um: "Unmarshal offline_env ''lock'' = Inr \<lparr>Projects = example_projects\<rparr>"
    by (simp add: offline_env_def example_env_def)
  have co: "completion_order (length (Projects \<lparr>Projects = example_projects\<rparr>)) [1, 0]"
    by code_simp
  have i: "1 < length (Projects \<lparr>Projects = example_projects\<rparr>)"
    by (simp add: example_projects_def)
  have m: "fst (Match offline_env (GoPrivate example_args)
             (Name (Projects \<lparr>Projects = example_projects\<rparr> ! 1)))"
    by (simp add: offline_env_def example_env_def example_args_def example_projects_def)
  have p: "importReposFromDep offline_env [1, 0] example_args
      = Panics ''failed to fetch info for b.org/y@r2: connection refused''"
    by code_simp
  from a rf um co i m
  have "\<exists>res r. importReposFromDep offline_env [1, 0] example_args = Returns res \<and>
                  r \<in> set (Gen res) \<and>
                  Attr r ''commit''
                    = Some (StringValue (Revision (Projects \<lparr>Projects = example_projects\<rparr> ! 1)))"
    by blast
  with p show False by simp
qed


subsection \<open>Number, names and order of the rules\<close>

text \<open>
  Claim C1. Let the manifest be read and decoded, with \<open>N\<close> projects, and let the import
  return (no goroutine has panicked), the goroutines having completed in the order
  \<open>sched\<close>. Then the result carries no error; it is the stable sort by rule name of \<open>N\<close>
  rules \<open>rs\<close>, where \<open>rs ! i\<close> is the rule that the goroutine of project \<open>i\<close> has left and
  is named \<open>ImportPathToBazelRepoName\<close> of that project's name; so the names of the result
  are the sorted names of the projects, in ascending order; and every other completion
  order gives the very same result.
\<close>

theorem importReposFromDep_sorted:
  assumes rf: "ReadFile env (Path args) = Inr data"
    and um: "Unmarshal env data = Inr file"
    and co: "completion_order (length (Projects file)) sched"
    and ret: "importReposFromDep env sched args = Returns res"
  shows "Error res = None \<and>
         length (Gen res) = length (Projects file) \<and>
         (\<exists>rs. length rs = length (Projects file) \<and>
            (\<forall>i<length (Projects file).
               fst (goroutine env args
                      (if GoProxy args = [] then defaultGoProxyBase else GoProxy args) i
                      (Projects file ! i)) = Inr (rs ! i) \<and>
               rule_name (rs ! i) = ImportPathToBazelRepoName env (Name (Projects file ! i))) \<and>
            Gen res = sort_key rule_name rs) \<and>
         map rule_name (Gen res)
           = sort (map (\<lambda>p. ImportPathToBazelRepoName env (Name p)) (Projects file)) \<and>
         sorted (map rule_name (Gen res)) \<and>
         (\<forall>sched'. completion_order (length (Projects file)) sched' \<longrightarrow>
            importReposFromDep env sched' args = Returns res)"
proof -
  from import_returns [OF rf um co ret] obtain rs where
    slots: "map Inr rs =
      map (\<lambda>i. fst (goroutine env args
                 (if GoProxy args = [] then defaultGoProxyBase else GoProxy args) i (Projects file ! i)))
        [0..<length (Projects file)]"
    and res: "res = \<lparr>Gen = sort_key rule_name rs, Error = None\<rparr>"
    by blast
  note nth = slots_nth [OF slots]
  have e: "Error res = None" using res by simp
  have l: "length (Gen res) = length (Projects file)" using res nth by simp
  have g: "Gen res = sort_key rule_name rs" using res by simp
  have n: "map rule_name (Gen res)
      = sort (map (\<lambda>p. ImportPathToBazelRepoName env (Name p)) (Projects file))"
    using g slots_names [OF slots] by (simp add: map_sort_key)
  have s: "sorted (map rule_name (Gen res))" using g by (simp add: sorted_sort_key)
  have o: "\<forall>sched'. completion_order (length (Projects file)) sched' \<longrightarrow>
            importReposFromDep env sched' args = Returns res"
    using import_of_slots [OF rf um _ slots] res by simp
  from nth g have x: "\<exists>rs. length rs = length (Projects file) \<and>
            (\<forall>i<length (Projects file).
               fst (goroutine env args
                      (if GoProxy args = [] then defaultGoProxyBase else GoProxy args) i
                      (Projects file ! i)) = Inr (rs ! i) \<and>
               rule_name (rs ! i) = ImportPathToBazelRepoName env (Name (Projects file ! i))) \<and>
            Gen res = sort_key rule_name rs"
    by blast
  from e l x n s o show ?thesis by blast
qed

theorem importReposFromDep_sorted_witness:
  "ReadFile example_env (Path example_args) = Inr ''lock'' \<and>
   Unmarshal example_env ''lock'' = Inr \<lparr>Projects = example_projects\<rparr> \<and>
   completion_order (length example_projects) [1, 0] \<and>
   completion_order (length example_projects) [0, 1] \<and>
   importReposFromDep example_env [1, 0] example_args = Returns \<lparr>Gen = example_gen, Error = None\<rparr> \<and>
   importReposFromDep example_env [0, 1] example_args = Returns \<lparr>Gen = example_gen, Error = None\<rparr> \<and>
   map rule_name example_gen = [''a.org_x'', ''b.org_y''] \<and>
   map rule_name example_gen
     = sort (map (\<lambda>p. ImportPathToBazelRepoName example_env (Name p)) example_projects)"
proof -
  have rf: "ReadFile example_env (Path example_args) = Inr ''lock''"
    by (simp add: example_env_def example_args_def)
  have um: "Unmarshal example_env ''lock'' = Inr \<lparr>Projects = example_projects\<rparr>"
    by (simp add: example_env_def)
  have co: "completion_order (length (Projects \<lparr>Projects = example_projects\<rparr>)) [1, 0]"
    by code_simp
  have co': "completion_order (length (Projects \<lparr>Projects = example_projects\<rparr>)) [0, 1]"
    by code_simp
  have ret: "importReposFromDep example_env [1, 0] example_args
      = Returns \<lparr>Gen = example_gen, Error = None\<rparr>"
    by code_simp
  have names: "map rule_name example_gen = [''a.org_x'', ''b.org_y'']"
    by (simp add: example_gen_def)
  from importReposFromDep_sorted [OF rf um co ret] co' rf um co ret names show ?thesis
    by simp
qed

text \<open>
  Claim C10. Under the same conditions the sort is stable: with \<open>rs\<close> the rules in the
  order of the manifest (\<open>rs ! i\<close> is the rule of project \<open>i\<close>), the rules of any one name
  stand in the result in the order in which they stand in \<open>rs\<close>, that is, in the order of
  their projects in the manifest. Two projects of equal rule name are therefore never
  swapped.
\<close>

theorem importReposFromDep_stable:
  assumes rf: "ReadFile env (Path args) = Inr data"
    and um: "Unmarshal env data = Inr file"
    and co: "completion_order (length (Projects file)) sched"
    and ret: "importReposFromDep env sched args = Returns res"
  shows "\<exists>rs. length rs = length (Projects file) \<and>
           (\<forall>i<length (Projects file).
              fst (goroutine env args
                     (if GoProxy args = [] then defaultGoProxyBase else GoProxy args) i
                     (Projects file ! i)) = Inr (rs ! i)) \<and>
           (\<forall>name. filter (\<lambda>r. rule_name r = name) (Gen res)
                     = filter (\<lambda>r. rule_name r = name) rs)"
proof -
  from import_returns [OF rf um co ret] obtain rs where
    slots: "map Inr rs =
      map (\<lambda>i. fst (goroutine env args
                 (if GoProxy args = [] then defaultGoProxyBase else GoProxy args) i (Projects file ! i)))
        [0..<length (Projects file)]"
    and res: "res = \<lparr>Gen = sort_key rule_name rs, Error = None\<rparr>"
    by blast
  from res have "\<forall>name. filter (\<lambda>r. rule_name r = name) (Gen res)
                     = filter (\<lambda>r. rule_name r = name) rs"
    by (simp add: sort_key_stable)
  with slots_nth [OF slots] show ?thesis by blast
qed

theorem importReposFromDep_stable_witness:
  "ReadFile clash_env (Path example_args) = Inr ''lock'' \<and>
   Unmarshal clash_env ''lock'' = Inr \<lparr>Projects = clash_projects\<rparr> \<and>
   completion_order (length clash_projects) [2, 0, 1] \<and>
   importReposFromDep clash_env [2, 0, 1] example_args = Returns \<lparr>Gen = clash_gen, Error = None\<rparr> \<and>
   map (\<lambda>r. (rule_name r, Attr r ''importpath'')) clash_gen
     = [(''c_d'', Some (StringValue ''c/d'')), (''c_d'', Some (StringValue ''c_d'')),
        (''e'', Some (StringValue ''e''))] \<and>
   map Name clash_projects = [''e'', ''c/d'', ''c_d'']"
proof -
  have rf: "ReadFile clash_env (Path example_args) = Inr ''lock''"
    by (simp add: clash_env_def example_env_def example_args_def)
  have um: "Unmarshal clash_env ''lock'' = Inr \<lparr>Projects = clash_projects\<rparr>"
    by (simp add: clash_env_def)
  have co: "completion_order (length (Projects \<lparr>Projects = clash_projects\<rparr>)) [2, 0, 1]"
    by code_simp
  have ret: "importReposFromDep clash_env [2, 0, 1] example_args
      = Returns \<lparr>Gen = clash_gen, Error = None\<rparr>"
    by code_simp
  have shape: "map (\<lambda>r. (rule_name r, Attr r ''importpath'')) clash_gen
     = [(''c_d'', Some (StringValue ''c/d'')), (''c_d'', Some (StringValue ''c_d'')),
        (''e'', Some (StringValue ''e''))]"
    "map Name clash_projects = [''e'', ''c/d'', ''c_d'']"
    by (simp_all add: clash_gen_def clash_projects_def Attr_def)
  from importReposFromDep_stable [OF rf um co ret] rf um co ret shape show ?thesis
    by simp
qed


subsection \<open>The module path of the proxy URLs\<close>

lemma proxyModuleName_spec: "proxyModuleName env p = spec_module_path (UnicodeToLower env) p"
  by (simp add: proxyModuleName_def spec_module_path_def TrimPrefix_def TrimSuffix_def Let_def)

lemma example_module_path:
  "proxyModuleName env \<lparr>Name = n, Revision = rv, Source = ''https://example.com/foo.git''\<rparr>
     = ''example.com/foo''"
  by (simp add: proxyModuleName_def HasSuffix_def HasPrefix_def ToLower_def lower_byte_def
      Let_def less_eq_char_def)

text \<open>
  What one call of \<open>ruleUsingGoProxy\<close> adds to the events: the GET of the info URL, then
  possibly the GET of a zip URL, then possibly the printed digest.
\<close>

lemma ruleUsingGoProxy_events:
  "ruleUsingGoProxy env get base p r tr = (e, r', tr') \<Longrightarrow>
   \<exists>evs. tr' = tr @ Get (infoURL base (proxyModuleName env p) (Revision p)) # evs \<and>
     (evs = [] \<or>
      (\<exists>v. evs = [Get (zipURL base (proxyModuleName env p) v)]) \<or>
      (\<exists>v s. evs = [Get (zipURL base (proxyModuleName env p) v), Print s]))"
  by (auto simp: ruleUsingGoProxy_def Let_def split: sum.splits if_splits option.splits)

text \<open>
  Claim C4. The module path that \<open>ruleUsingGoProxy\<close> computes is the one the
  specification describes (\<open>spec_module_path\<close>: the source override when it is not empty,
  without a trailing \<open>.git\<close> and a leading \<open>https://\<close>, else the name; in lower case). It is
  the path in every URL the call requests: the info URL and, when the call gets that far,
  the zip URL. The source \<open>https://example.com/foo.git\<close> gives \<open>example.com/foo\<close>.
\<close>

theorem proxy_module_path:
  assumes "ruleUsingGoProxy env get base p r tr = (e, r', tr')"
  shows "proxyModuleName env p = spec_module_path (UnicodeToLower env) p \<and>
         (\<exists>evs. tr' = tr @ Get (infoURL base (spec_module_path (UnicodeToLower env) p) (Revision p)) # evs \<and>
            (evs = [] \<or>
             (\<exists>v. evs = [Get (zipURL base (spec_module_path (UnicodeToLower env) p) v)]) \<or>
             (\<exists>v s. evs = [Get (zipURL base (spec_module_path (UnicodeToLower env) p) v), Print s]))) \<and>
         spec_module_path (UnicodeToLower env)
           \<lparr>Name = n, Revision = rv, Source = ''https://example.com/foo.git''\<rparr> = ''example.com/foo''"
  using ruleUsingGoProxy_events [OF assms] example_module_path [of env n rv]
  by (simp add: proxyModuleName_spec)

theorem proxy_module_path_witness:
  "ruleUsingGoProxy example_env (HttpGet example_env 1) ''https://proxy.golang.org''
     \<lparr>Name = ''a.org/x'', Revision = ''r1'', Source = ''https://A.org/x.git''\<rparr>
     (NewRule ''go_repository'' ''a.org_x'') []
   = (None,
      SetAttr ''strip_prefix'' (StringValue ''a.org/x@v1.0.0'')
        (SetAttr ''sha256'' (StringValue ''e3b0'')
          (SetAttr ''urls'' (StringList [''https://proxy.golang.org/a.org/x/@v/v1.0.0.zip''])
            (NewRule ''go_repository'' ''a.org_x''))),
      [Get ''https://proxy.golang.org/a.org/x/@v/r1.info'',
       Get ''https://proxy.golang.org/a.org/x/@v/v1.0.0.zip'',
       Print (''a.org/x@r1: e3b0'' @ newline)]) \<and>
   proxyModuleName example_env \<lparr>Name = ''a.org/x'', Revision = ''r1'', Source = ''https://A.org/x.git''\<rparr>
     = ''a.org/x''"
proof -
  have n: "proxyModuleName example_env
      \<lparr>Name = ''a.org/x'', Revision = ''r1'', Source = ''https://A.org/x.git''\<rparr> = ''a.org/x''"
    by code_simp
  have run: "ruleUsingGoProxy example_env (HttpGet example_env 1) ''https://proxy.golang.org''
     \<lparr>Name = ''a.org/x'', Revision = ''r1'', Source = ''https://A.org/x.git''\<rparr>
     (NewRule ''go_repository'' ''a.org_x'') []
   = (None,
      SetAttr ''strip_prefix'' (StringValue ''a.org/x@v1.0.0'')
        (SetAttr ''sha256'' (StringValue ''e3b0'')
          (SetAttr ''urls'' (StringList [''https://proxy.golang.org/a.org/x/@v/v1.0.0.zip''])
            (NewRule ''go_repository'' ''a.org_x''))),
      [Get ''https://proxy.golang.org/a.org/x/@v/r1.info'',
       Get ''https://proxy.golang.org/a.org/x/@v/v1.0.0.zip'',
       Print (''a.org/x@r1: e3b0'' @ newline)])"
    by (simp add: ruleUsingGoProxy_def n Let_def)
       (simp add: example_env_def Let_def infoURL_def zipURL_def)
  from proxy_module_path [OF run] n run show ?thesis by simp
qed


subsection \<open>The retry loop\<close>










section \<open>Properties of autogazelle\<close>

subsection \<open>runGazelle\<close>

text \<open>
  Claim C7. In fast mode with no directories \<open>runGazelle\<close> returns \<open>nil\<close> and leaves the
  state as it was: no command is run. In fast mode with directories it runs exactly one
  command, \<open>$BAZEL_REAL run <label> -- -args -index=false -r=false\<close> followed by the
  given directories and nothing else, and returns what the command returns.
\<close>

theorem runGazelle_fastMode:
  "runGazelle env fastMode [] w = (None, w) \<and>
   (dirs \<noteq> [] \<longrightarrow>
      runGazelle env fastMode dirs w =
        (RunCmd env ([BAZEL_REAL env, ''run'', gazelleLabel env, ''--'', ''-args'', ''-index=false'',
                      ''-r=false''] @ dirs),
         w\<lparr>logs := logs w @
              [''running gazelle: '' @
               JoinStrings ([BAZEL_REAL env, ''run'', gazelleLabel env, ''--'', ''-args'',
                             ''-index=false'', ''-r=false''] @ dirs) '' '' @ newline],
           ops := ops w @
              [Exec ([BAZEL_REAL env, ''run'', gazelleLabel env, ''--'', ''-args'', ''-index=false'',
                      ''-r=false''] @ dirs)]\<rparr>))"
  by (simp add: runGazelle_def Let_def)

theorem runGazelle_fastMode_witness:
  "runGazelle example_os fastMode [] example_world = (None, example_world) \<and>
   runGazelle example_os fastMode [''pkg'', ''cmd/tool''] example_world =
     (None,
      example_world\<lparr>logs := [''running gazelle: bazel run //:gazelle -- -args -index=false -r=false pkg cmd/tool'' @ newline],
                    ops := [Exec [''bazel'', ''run'', ''//:gazelle'', ''--'', ''-args'', ''-index=false'',
                                  ''-r=false'', ''pkg'', ''cmd/tool'']]\<rparr>)"
  using runGazelle_fastMode [of example_os example_world "[''pkg'', ''cmd/tool'']"]
  by (simp add: example_os_def example_world_def)

subsection \<open>restoreFile\<close>

lemma os_Open_ops: "os_Open env (w\<lparr>ops := x\<rparr>) p = os_Open env w p"
  by (simp add: os_Open_def split: option.splits)

text \<open>
  Claim C9. When the source cannot be opened (it is missing, or the system refuses),
  \<open>restoreFile\<close> returns that error at once: the only system call it has made is the
  \<open>open\<close> of the source, so the destination was not created or truncated, and the files
  are what they were.
\<close>

theorem restoreFile_open_error:
  assumes "os_Open env w src = Some err"
  shows "restoreFile env src dest w = Some (Some err, w\<lparr>ops := ops w @ [Open src]\<rparr>) \<and>
         (\<exists>w'. restoreFile env src dest w = Some (Some err, w') \<and>
                files w' = files w \<and> files w' dest = files w dest \<and>
                ops w' = ops w @ [Open src] \<and> Create dest \<notin> set (ops w' ) - set (ops w) \<and>
                logs w' = logs w)"
  using assms by (simp add: restoreFile_def Let_def os_Open_ops)

theorem restoreFile_open_error_witness:
  "os_Open example_os example_world ''/ws/BUILD.bazel.in''
     = Some ''open /ws/BUILD.bazel.in: no such file or directory'' \<and>
   restoreFile example_os ''/ws/BUILD.bazel.in'' ''/ws/BUILD'' example_world
     = Some (Some ''open /ws/BUILD.bazel.in: no such file or directory'',
             example_world\<lparr>ops := [Open ''/ws/BUILD.bazel.in'']\<rparr>) \<and>
   files example_world ''/ws/BUILD'' = Some ''stale''"
proof -
  have h: "os_Open example_os example_world ''/ws/BUILD.bazel.in''
     = Some ''open /ws/BUILD.bazel.in: no such file or directory''"
    by (simp add: os_Open_def example_os_def example_world_def)
  from restoreFile_open_error [OF h, of "''/ws/BUILD''"] h show ?thesis
    by (simp add: example_world_def)
qed


subsection \<open>The copy\<close>

lemma content_upd: "content (fs(p \<mapsto> b)) q = (if q = p then b else content fs q)"
  by (simp add: content_def)

lemma take_drop_length: "take n ys @ drop (length (take n ys)) ys = ys"
  by (cases "n \<le> length ys") (simp_all add: min_def)

lemma take_chunk_drop:
  "take n (drop off xs) @ drop (off + length (take n (drop off xs))) xs = drop off xs"
proof -
  have "drop (off + length (take n (drop off xs))) xs
      = drop (length (take n (drop off xs))) (drop off xs)"
    by (simp only: drop_drop add.commute)
  then show ?thesis by (simp only: take_drop_length)
qed

text \<open>
  A copy between two different files that returns has left every other file alone; when
  it returns without error the destination has grown by what the source held from the
  offset on.
\<close>

lemma copyLoop_result:
  assumes c: "copyLoop env src dest off fs = Some y"
  shows "src \<noteq> dest \<longrightarrow>
         (\<forall>p. p \<noteq> dest \<longrightarrow> snd y p = fs p) \<and>
         (fst y = None \<longrightarrow>
            content (snd y) dest = content fs dest @ drop off (content fs src) \<and>
            (fs dest \<noteq> None \<longrightarrow> snd y dest \<noteq> None))"
proof (induction rule: copyLoop.raw_induct [OF _ c])
  case (1 copyLoop' env src dest off fs y)
  show ?case
  proof (cases "CopyErr env off")
    case (Some err)
    with "1.hyps" show ?thesis by auto
  next
    case None
    show ?thesis
    proof (cases "take 32768 (drop off (content fs src)) = []")
      case True
      then have "drop off (content fs src) = []" by (simp add: take_eq_Nil)
      with None True "1.hyps" show ?thesis by auto
    next
      case False
      let ?chunk = "take 32768 (drop off (content fs src))"
      let ?fs = "fs(dest \<mapsto> content fs dest @ ?chunk)"
      from None False "1.hyps"
      have rec: "copyLoop' env src dest (off + length ?chunk) ?fs = Some y" by simp
      note ih = "1.IH" [OF rec]
      show ?thesis
      proof (intro impI)
        assume ne: "src \<noteq> dest"
        with ih have a: "\<forall>p. p \<noteq> dest \<longrightarrow> snd y p = ?fs p"
          and b: "fst y = None \<longrightarrow>
            content (snd y) dest = content ?fs dest @ drop (off + length ?chunk) (content ?fs src) \<and>
            (?fs dest \<noteq> None \<longrightarrow> snd y dest \<noteq> None)"
          by blast+
        from ne have s: "content ?fs src = content fs src" by (simp add: content_upd)
        have d: "content ?fs dest = content fs dest @ ?chunk" by (simp add: content_upd)
        from a have a': "\<forall>p. p \<noteq> dest \<longrightarrow> snd y p = fs p" by simp
        have b': "fst y = None \<longrightarrow>
            content (snd y) dest = content fs dest @ drop off (content fs src) \<and>
            (fs dest \<noteq> None \<longrightarrow> snd y dest \<noteq> None)"
        proof
          assume "fst y = None"
          with b have "content (snd y) dest
              = content ?fs dest @ drop (off + length ?chunk) (content ?fs src)"
            and n: "snd y dest \<noteq> None" by simp_all
          then have "content (snd y) dest
              = content fs dest @ (?chunk @ drop (off + length ?chunk) (content fs src))"
            by (simp only: s d append_assoc)
          then have "content (snd y) dest = content fs dest @ drop off (content fs src)"
            by (simp only: take_chunk_drop)
          with n show "content (snd y) dest = content fs dest @ drop off (content fs src) \<and>
            (fs dest \<noteq> None \<longrightarrow> snd y dest \<noteq> None)" by simp
        qed
        from a' b' show "(\<forall>p. p \<noteq> dest \<longrightarrow> snd y p = fs p) \<and>
         (fst y = None \<longrightarrow>
            content (snd y) dest = content fs dest @ drop off (content fs src) \<and>
            (fs dest \<noteq> None \<longrightarrow> snd y dest \<noteq> None))" by blast
      qed
    qed
  qed
qed

text \<open>
  A copy of a file onto itself, started before the end of the file, never ends well: each
  write gives the reader more to read, so the copy can only stop on an error.
\<close>

lemma copyLoop_self:
  assumes c: "copyLoop env src dest off fs = Some y"
  shows "src = dest \<longrightarrow> off < length (content fs src) \<longrightarrow> fst y \<noteq> None"
proof (induction rule: copyLoop.raw_induct [OF _ c])
  case (1 copyLoop' env src dest off fs y)
  show ?case
  proof (cases "CopyErr env off")
    case (Some err)
    with "1.hyps" show ?thesis by auto
  next
    case None
    show ?thesis
    proof (intro impI)
      assume eq: "src = dest" and lt: "off < length (content fs src)"
      let ?chunk = "take 32768 (drop off (content fs src))"
      let ?fs = "fs(dest \<mapsto> content fs dest @ ?chunk)"
      from lt have ne: "?chunk \<noteq> []" by (simp add: take_eq_Nil)
      with None "1.hyps"
      have rec: "copyLoop' env src dest (off + length ?chunk) ?fs = Some y" by simp
      from eq have "content ?fs src = content fs src @ ?chunk" by (simp add: content_upd)
      with lt have "off + length ?chunk < length (content ?fs src)" by simp
      with "1.IH" [OF rec] eq show "fst y \<noteq> None" by blast
    qed
  qed
qed

text \<open>A copy between two different files returns.\<close>

lemma copyLoop_returns:
  "src \<noteq> dest \<Longrightarrow> \<exists>y. copyLoop env src dest off fs = Some y"
proof (induction "length (content fs src) - off" arbitrary: off fs rule: less_induct)
  case less
  show ?case
  proof (cases "CopyErr env off")
    case (Some err)
    then show ?thesis by (subst copyLoop.simps) simp
  next
    case None
    let ?chunk = "take 32768 (drop off (content fs src))"
    let ?fs = "fs(dest \<mapsto> content fs dest @ ?chunk)"
    show ?thesis
    proof (cases "?chunk = []")
      case True
      with None show ?thesis by (subst copyLoop.simps) simp
    next
      case False
      then have lt: "off < length (content fs src)" by (simp add: take_eq_Nil)
      from False have pos: "0 < length ?chunk" by simp
      from less.prems have s: "content ?fs src = content fs src" by (simp add: content_upd)
      from lt pos have "length (content ?fs src) - (off + length ?chunk) < length (content fs src) - off"
        unfolding s by linarith
      from less.hyps [OF this less.prems] obtain y where
        "copyLoop env src dest (off + length ?chunk) ?fs = Some y" by blast
      with None False show ?thesis by (subst copyLoop.simps) simp
    qed
  qed
qed

subsection \<open>Restoring a template\<close>

lemma restoreFile_success:
  "restoreFile env src dest w = Some (None, w') \<longleftrightarrow>
     os_Open env w src = None \<and> CreateErr env dest = None \<and> FprintfErr env = None \<and>
     CloseErr env = None \<and>
     (\<exists>fs. copyLoop env src dest 0 ((files w)(dest \<mapsto> header env src)) = Some (None, fs) \<and>
           w' = w\<lparr>files := fs, ops := ops w @ [Open src, Create dest, Close dest, Close src]\<rparr>)"
  by (auto simp: restoreFile_def Let_def os_Open_ops split: option.splits prod.splits)

lemma restoreFile_returns:
  "src \<noteq> dest \<Longrightarrow> \<exists>res. restoreFile env src dest w = Some res"
  using copyLoop_returns [of src dest env 0 "(files w)(dest \<mapsto> header env src)"]
  by (auto simp: restoreFile_def Let_def split: option.splits prod.splits)

lemma header_nonempty: "header env src \<noteq> []"
  by (simp add: header_def)

lemma os_Open_None: "os_Open env w src = None \<longleftrightarrow> OpenErr env src = None \<and> files w src \<noteq> None"
  by (auto simp: os_Open_def split: option.splits)

text \<open>
  Claim C5. Let \<open>restoreFile src dest\<close> return without error. Then the source is a file,
  with bytes \<open>B\<close> say, other than the destination; afterwards the destination holds the
  header (\<open>header\<close>: the three comment lines with the base name of the source and the
  program name, and an empty line) followed by exactly \<open>B\<close>, whatever it held before or
  whether it was there at all, and every other file is as it was. Restoring again from
  that state succeeds again and changes no file; and under any other behaviour of the
  system (with the same program name) a second restore that succeeds leaves the same
  files.
\<close>

theorem restoreFile_content:
  assumes ok: "restoreFile env src dest w = Some (None, w')"
  shows "\<exists>B. files w src = Some B \<and> src \<noteq> dest \<and>
           files w' dest = Some (header env src @ B) \<and>
           files w' = (files w)(dest \<mapsto> header env src @ B) \<and>
           header env src = ''# This file was generated from '' @ Base src @ newline @
                            ''# by '' @ programName env @ newline @
                            ''# DO NOT EDIT'' @ newline @ newline \<and>
           (\<exists>w''. restoreFile env src dest w' = Some (None, w'') \<and> files w'' = files w') \<and>
           (\<forall>env' w''. programName env' = programName env \<and>
                        restoreFile env' src dest w' = Some (None, w'') \<longrightarrow> files w'' = files w')"
proof -
  let ?h = "header env src"
  from ok obtain fs where
    op: "os_Open env w src = None" and cr: "CreateErr env dest = None"
    and fp: "FprintfErr env = None" and cl: "CloseErr env = None"
    and cp: "copyLoop env src dest 0 ((files w)(dest \<mapsto> ?h)) = Some (None, fs)"
    and w': "w' = w\<lparr>files := fs, ops := ops w @ [Open src, Create dest, Close dest, Close src]\<rparr>"
    unfolding restoreFile_success by blast
  from op obtain B where B: "files w src = Some B" and oe: "OpenErr env src = None"
    unfolding os_Open_None by blast
  have ne: "src \<noteq> dest"
  proof
    assume "src = dest"
    moreover from this have "0 < length (content ((files w)(dest \<mapsto> ?h)) src)"
      by (simp add: content_upd header_nonempty)
    ultimately show False using copyLoop_self [OF cp] by simp
  qed
  have result: "fs' = (files v)(dest \<mapsto> header e src @ B)"
    if c: "copyLoop e src dest 0 ((files v)(dest \<mapsto> header e src)) = Some (None, fs')"
      and v: "files v src = Some B" for e v fs'
  proof
    fix p
    from copyLoop_result [OF c] ne
    have others: "\<forall>p. p \<noteq> dest \<longrightarrow> fs' p = ((files v)(dest \<mapsto> header e src)) p"
      and cont: "content fs' dest = content ((files v)(dest \<mapsto> header e src)) dest
                   @ drop 0 (content ((files v)(dest \<mapsto> header e src)) src)"
      and there: "fs' dest \<noteq> None"
      by simp_all
    from cont ne v have "content fs' dest = header e src @ B"
      by (simp add: content_upd) (simp add: content_def)
    with there have "fs' dest = Some (header e src @ B)"
      by (auto simp: content_def)
    with others show "fs' p = ((files v)(dest \<mapsto> header e src @ B)) p"
      by (cases "p = dest") simp_all
  qed
  from result [OF cp B] have fs: "fs = (files w)(dest \<mapsto> ?h @ B)" .
  with w' have f': "files w' = (files w)(dest \<mapsto> ?h @ B)" by simp
  with ne B have src': "files w' src = Some B" by simp
  have start: "(files w')(dest \<mapsto> ?h) = (files w)(dest \<mapsto> ?h)"
    using f' by simp
  have again: "\<exists>w''. restoreFile env src dest w' = Some (None, w'') \<and> files w'' = files w'"
  proof -
    from src' oe have "os_Open env w' src = None" by (simp add: os_Open_None)
    moreover from cp have "copyLoop env src dest 0 ((files w')(dest \<mapsto> ?h)) = Some (None, fs)"
      by (simp only: start)
    ultimately have "restoreFile env src dest w'
        = Some (None, w'\<lparr>files := fs, ops := ops w' @ [Open src, Create dest, Close dest, Close src]\<rparr>)"
      using cr fp cl unfolding restoreFile_success by blast
    moreover have "files (w'\<lparr>files := fs, ops := ops w' @ [Open src, Create dest, Close dest, Close src]\<rparr>)
        = files w'" using f' fs by simp
    ultimately show ?thesis by blast
  qed
  have other: "\<forall>env' w''. programName env' = programName env \<and>
                        restoreFile env' src dest w' = Some (None, w'') \<longrightarrow> files w'' = files w'"
  proof (intro allI impI)
    fix env' w''
    assume a: "programName env' = programName env \<and> restoreFile env' src dest w' = Some (None, w'')"
    then have h: "header env' src = ?h" by (simp add: header_def)
    from a obtain fs'' where
      c: "copyLoop env' src dest 0 ((files w')(dest \<mapsto> header env' src)) = Some (None, fs'')"
      and w'': "w'' = w'\<lparr>files := fs'', ops := ops w' @ [Open src, Create dest, Close dest, Close src]\<rparr>"
      unfolding restoreFile_success by blast
    from result [OF c src'] have "fs'' = (files w')(dest \<mapsto> header env' src @ B)" .
    with w'' h f' show "files w'' = files w'" by simp
  qed
  have hd: "header env src = ''# This file was generated from '' @ Base src @ newline @
                            ''# by '' @ programName env @ newline @
                            ''# DO NOT EDIT'' @ newline @ newline"
    by (simp add: header_def)
  from f' have "files w' dest = Some (?h @ B)" by simp
  with B ne f' hd again other show ?thesis by blast
qed

theorem restoreFile_content_witness:
  "restoreFile example_os ''/ws/BUILD.in'' ''/ws/BUILD'' example_world = Some (None, restored_world) \<and>
   files example_world ''/ws/BUILD.in'' = Some ''x = 1'' \<and>
   files example_world ''/ws/BUILD'' = Some ''stale'' \<and>
   files restored_world ''/ws/BUILD''
     = Some (''# This file was generated from BUILD.in'' @ newline @ ''# by autogazelle'' @ newline @
             ''# DO NOT EDIT'' @ newline @ newline @ ''x = 1'') \<and>
   (\<exists>w''. restoreFile example_os ''/ws/BUILD.in'' ''/ws/BUILD'' restored_world = Some (None, w'') \<and>
          files w'' = files restored_world)"
proof -
  have ok: "restoreFile example_os ''/ws/BUILD.in'' ''/ws/BUILD'' example_world
      = Some (None, restored_world)"
    by (simp add: restoreFile_def Let_def os_Open_def example_os_def example_world_def
        restored_world_def copyLoop.simps content_def header_def Base_def newline_def fun_upd_twist)
  have f: "files example_world ''/ws/BUILD.in'' = Some ''x = 1''"
    "files example_world ''/ws/BUILD'' = Some ''stale''"
    "files restored_world ''/ws/BUILD''
     = Some (''# This file was generated from BUILD.in'' @ newline @ ''# by autogazelle'' @ newline @
             ''# DO NOT EDIT'' @ newline @ newline @ ''x = 1'')"
    by (simp_all add: example_world_def restored_world_def)
  from restoreFile_content [OF ok] ok f show ?thesis by blast
qed


subsection \<open>restoreBuildFilesInDir\<close>

lemma os_Stat_missing: "files w p = None \<Longrightarrow> \<exists>err. os_Stat env (w\<lparr>ops := x\<rparr>) p = Some err"
  by (simp add: os_Stat_def split: option.splits)

lemma restoreBases_skip:
  "files w (Join env dir (base @ ''.in'')) = None \<Longrightarrow>
   restoreBases env dir (base # bases) w =
   restoreBases env dir bases (w\<lparr>ops := ops w @ [Stat (Join env dir (base @ ''.in''))]\<rparr>)"
  using os_Stat_missing [of w "Join env dir (base @ ''.in'')" env
      "ops w @ [Stat (Join env dir (base @ ''.in''))]"]
  by (auto simp: Let_def)

lemma restoreBases_append:
  "restoreBases env dir (xs @ ys) w
     = Option.bind (restoreBases env dir xs w) (restoreBases env dir ys)"
  by (induction xs arbitrary: w) (auto simp: Let_def split: option.splits)

text \<open>
  Claim C8. \<open>restoreBuildFilesInDir\<close> deals with \<open>BUILD.bazel\<close> first, to the end, and
  with \<open>BUILD\<close> after it, in the state the first has left. A base name whose \<open>.in\<close> file is
  missing costs one \<open>stat\<close> and nothing more: no file is touched and nothing is logged, and
  the loop goes on with the other names. When neither \<open>BUILD.bazel.in\<close> nor \<open>BUILD.in\<close>
  exists, the function returns after the two \<open>stat\<close> calls, in this order, with the files
  and the log as they were.
\<close>

theorem restoreBuildFilesInDir_missing:
  "restoreBuildFilesInDir env dir w
     = Option.bind (restoreBases env dir [''BUILD.bazel''] w) (restoreBases env dir [''BUILD'']) \<and>
   (files w (Join env dir ''BUILD.bazel.in'') = None \<longrightarrow>
      restoreBuildFilesInDir env dir w
        = restoreBases env dir [''BUILD'']
            (w\<lparr>ops := ops w @ [Stat (Join env dir ''BUILD.bazel.in'')]\<rparr>)) \<and>
   (files w (Join env dir ''BUILD.in'') = None \<longrightarrow>
      restoreBases env dir [''BUILD''] w
        = Some (w\<lparr>ops := ops w @ [Stat (Join env dir ''BUILD.in'')]\<rparr>)) \<and>
   (files w (Join env dir ''BUILD.bazel.in'') = None \<and> files w (Join env dir ''BUILD.in'') = None \<longrightarrow>
      restoreBuildFilesInDir env dir w
        = Some (w\<lparr>ops := ops w @ [Stat (Join env dir ''BUILD.bazel.in''),
                                    Stat (Join env dir ''BUILD.in'')]\<rparr>))"
proof -
  have a: "restoreBuildFilesInDir env dir w
     = Option.bind (restoreBases env dir [''BUILD.bazel''] w) (restoreBases env dir [''BUILD''])"
    using restoreBases_append [of env dir "[''BUILD.bazel'']" "[''BUILD'']" w]
    by (simp add: restoreBuildFilesInDir_def)
  have b: "restoreBuildFilesInDir env dir w
        = restoreBases env dir [''BUILD'']
            (w\<lparr>ops := ops w @ [Stat (Join env dir ''BUILD.bazel.in'')]\<rparr>)"
    if "files w (Join env dir ''BUILD.bazel.in'') = None"
    using restoreBases_skip [of w env dir "''BUILD.bazel''" "[''BUILD'']"] that
    by (simp add: restoreBuildFilesInDir_def)
  have c: "restoreBases env dir [''BUILD''] v
        = Some (v\<lparr>ops := ops v @ [Stat (Join env dir ''BUILD.in'')]\<rparr>)"
    if "files v (Join env dir ''BUILD.in'') = None" for v
    using restoreBases_skip [of v env dir "''BUILD''" "[]"] that by simp
  have d: "restoreBuildFilesInDir env dir w
        = Some (w\<lparr>ops := ops w @ [Stat (Join env dir ''BUILD.bazel.in''),
                                    Stat (Join env dir ''BUILD.in'')]\<rparr>)"
    if "files w (Join env dir ''BUILD.bazel.in'') = None" "files w (Join env dir ''BUILD.in'') = None"
    using b [OF that(1)] c [of "w\<lparr>ops := ops w @ [Stat (Join env dir ''BUILD.bazel.in'')]\<rparr>"] that(2)
    by simp
  from a b c [of w] d show ?thesis by blast
qed

theorem restoreBuildFilesInDir_missing_witness:
  "files example_world (Join example_os ''/ws/pkg'' ''BUILD.bazel.in'') = None \<and>
   files example_world (Join example_os ''/ws/pkg'' ''BUILD.in'') = None \<and>
   restoreBuildFilesInDir example_os ''/ws/pkg'' example_world
     = Some (example_world\<lparr>ops := [Stat ''/ws/pkg/BUILD.bazel.in'', Stat ''/ws/pkg/BUILD.in'']\<rparr>)"
proof -
  have h: "files example_world (Join example_os ''/ws/pkg'' ''BUILD.bazel.in'') = None"
    "files example_world (Join example_os ''/ws/pkg'' ''BUILD.in'') = None"
    by (simp_all add: example_world_def example_os_def)
  from restoreBuildFilesInDir_missing [of example_os "''/ws/pkg''" example_world] h
  have r: "restoreBuildFilesInDir example_os ''/ws/pkg'' example_world
     = Some (example_world\<lparr>ops := ops example_world @
               [Stat (Join example_os ''/ws/pkg'' ''BUILD.bazel.in''),
                Stat (Join example_os ''/ws/pkg'' ''BUILD.in'')]\<rparr>)"
    by blast
  have e: "ops example_world = []"
    "Join example_os ''/ws/pkg'' ''BUILD.bazel.in'' = ''/ws/pkg/BUILD.bazel.in''"
    "Join example_os ''/ws/pkg'' ''BUILD.in'' = ''/ws/pkg/BUILD.in''"
    by (simp_all add: example_world_def example_os_def)
  from r h show ?thesis by (simp only: e append_Nil simp_thms)
qed


subsection \<open>walkWorkspace\<close>

text \<open>
  Claim C6, as the code has it. When the root cannot be made absolute, \<open>walkWorkspace\<close>
  returns at once, having added the line \<open>failed to find absolute path: <error>\<close> to the
  log and nothing else: the directories are not walked and the callback is not called,
  whatever the callback is (the outcome is the same for a callback that would never
  return), and the files and the system calls are as before. The error is in the log
  only; the caller is handed nothing.
\<close>

theorem walkWorkspace_no_absolute_root:
  assumes "Abs env root = Inl err"
  shows "walkWorkspace env root walkFunc w
           = Some (w\<lparr>logs := logs w @ [''failed to find absolute path: '' @ err]\<rparr>) \<and>
         walkWorkspace env root (\<lambda>dir regularFiles w. None) w
           = walkWorkspace env root walkFunc w \<and>
         caller_view (walkWorkspace env root walkFunc w) = Some (files w, ops w)"
  using assms by (simp add: walkWorkspace_def caller_view_def)

theorem walkWorkspace_no_absolute_root_witness:
  "Abs no_abs_os ''.'' = Inl ''getwd: no such file or directory'' \<and>
   walkWorkspace no_abs_os ''.'' (restoreFiles no_abs_os) example_world
     = Some (example_world\<lparr>logs :=
               [''failed to find absolute path: getwd: no such file or directory'']\<rparr>) \<and>
   restoreBuildFilesInRepo no_abs_os example_world
     = Some (example_world\<lparr>logs :=
               [''failed to find absolute path: getwd: no such file or directory'']\<rparr>)"
proof -
  have a: "Abs no_abs_os ''.'' = Inl ''getwd: no such file or directory''"
    by (simp add: no_abs_os_def)
  have l: "logs example_world = []" by (simp add: example_world_def)
  from walkWorkspace_no_absolute_root [OF a, of "restoreFiles no_abs_os" example_world] a l
  show ?thesis by (simp add: restoreBuildFilesInRepo_def)
qed

text \<open>
  The claim as the specification words it, that the error is reported to the caller, does
  not hold: a walk that has failed in this way cannot always be told, by what the caller
  is given, from a walk that has succeeded. With the callback of
  \<open>restoreBuildFilesInRepo\<close>, the failed walk of \<open>no_abs_os\<close> and the walk of \<open>plain_os\<close>
  over a directory without templates leave the caller with the very same files and
  system calls.
\<close>

theorem walkWorkspace_error_not_reported:
  "\<not> (\<forall>env env' root walkFunc w.
        (\<exists>err. Abs env root = Inl err) \<and> (\<exists>r. Abs env' root = Inr r) \<longrightarrow>
        caller_view (walkWorkspace env root walkFunc w)
          \<noteq> caller_view (walkWorkspace env' root walkFunc w))"
proof
  assume a: "\<forall>env env' root walkFunc w.
        (\<exists>err. Abs env root = Inl err) \<and> (\<exists>r. Abs env' root = Inr r) \<longrightarrow>
        caller_view (walkWorkspace env root walkFunc w)
          \<noteq> caller_view (walkWorkspace env' root walkFunc w)"
  have f: "\<exists>err. Abs no_abs_os ''.'' = Inl err" by (simp add: no_abs_os_def)
  have s: "\<exists>r. Abs plain_os ''.'' = Inr r" by (simp add: plain_os_def example_os_def)
  have v1: "caller_view (walkWorkspace no_abs_os ''.'' (restoreFiles plain_os) example_world)
      = Some (files example_world, ops example_world)"
    by (simp add: walkWorkspace_def caller_view_def no_abs_os_def)
  have v2: "caller_view (walkWorkspace plain_os ''.'' (restoreFiles plain_os) example_world)
      = Some (files example_world, ops example_world)"
    by (simp add: walkWorkspace_def caller_view_def plain_os_def example_os_def)
  from a f s
  have "caller_view (walkWorkspace no_abs_os ''.'' (restoreFiles plain_os) example_world)
      \<noteq> caller_view (walkWorkspace plain_os ''.'' (restoreFiles plain_os) example_world)"
    by blast
  with v1 v2 show False by simp
qed


end
